theory Spec2Isabelle
  imports Main
begin

section \<open>Todo App Phase I Core: a shallow embedding of \<^verbatim>\<open>src/main.py\<close>\<close>

text \<open>
  The program keeps a list of task dictionaries in memory and drives it from a menu read
  on standard input. Each function of \<^verbatim>\<open>main.py\<close> is translated below under its own
  name. The task list, which the Python mutates in place, is passed in and returned;
  standard input and standard output are the two fields of a \<open>world\<close> record that every
  function doing I/O takes and returns; exceptions are values of a sum type.
\<close>

subsection \<open>Data model\<close>

text \<open>
  A task is a dictionary with exactly the keys \<^verbatim>\<open>id\<close>, \<^verbatim>\<open>title\<close>, \<^verbatim>\<open>desc\<close> and
  \<^verbatim>\<open>complete\<close>. The key \<^verbatim>\<open>id\<close> is the field \<open>id_num\<close> here (\<open>id\<close> is the identity
  function of HOL). Python integers are unbounded, hence \<open>int\<close>. A string is a list of
  characters, each standing for one code point below 256.
\<close>

record task =
  id_num :: int
  title :: string
  desc :: string
  complete :: bool

subsection \<open>The builtins the program calls\<close>

text \<open>
  \<^verbatim>\<open>str.strip()\<close> without argument removes leading and trailing whitespace. Among the
  code points below 256 Python counts as whitespace: TAB, LF, VT, FF, CR (9 to 13), the
  separators FS, GS, RS, US (28 to 31), the space (32), NEL (133) and the no-break
  space (160).
\<close>

definition py_isspace :: "char \<Rightarrow> bool" where
  "py_isspace c =
     (let n = (of_char c :: nat)
      in (9 \<le> n \<and> n \<le> 13) \<or> (28 \<le> n \<and> n \<le> 32) \<or> n = 133 \<or> n = 160)"

definition py_strip :: "string \<Rightarrow> string" where
  "py_strip s = rev (dropWhile py_isspace (rev (dropWhile py_isspace s)))"

text \<open>
  \<^verbatim>\<open>str(n)\<close> for an integer, as the f-strings of the program format it: decimal
  digits, most significant first, with a minus sign for a negative number. (The
  interpreter refuses to format an integer of more than 4300 digits. The numbers a run
  formats are numbers it has read, of at most 4300 digits, and ids counted up from 1;
  the refusal is not modelled.)
\<close>

definition digit_char :: "nat \<Rightarrow> char" where
  "digit_char d = ''0123456789'' ! d"

fun str_nat :: "nat \<Rightarrow> string" where
  "str_nat n = (if n < 10 then [digit_char n] else str_nat (n div 10) @ [digit_char (n mod 10)])"

declare str_nat.simps [simp del]

definition py_str :: "int \<Rightarrow> string" where
  "py_str i = (if i < 0 then CHR ''-'' # str_nat (nat (- i)) else str_nat (nat i))"

text \<open>
  \<^verbatim>\<open>int(s)\<close> for a string. Whitespace around the number is skipped, and here
  \<^verbatim>\<open>int\<close> is narrower than \<^verbatim>\<open>strip\<close>: among the code points below 256 it skips
  9 to 13, 32, 133 and 160, but not the separators 28 to 31. One sign is allowed, then
  come decimal digits, where a single underscore may stand between two digits. A text
  with more than 4300 digits (the interpreter's default limit; leading zeros count,
  underscores and the sign do not) is refused. Every refusal is a \<^verbatim>\<open>ValueError\<close>,
  which is \<open>None\<close> here.
\<close>

definition int_isspace :: "char \<Rightarrow> bool" where
  "int_isspace c =
     (let n = (of_char c :: nat)
      in (9 \<le> n \<and> n \<le> 13) \<or> n = 32 \<or> n = 133 \<or> n = 160)"

definition int_strip :: "string \<Rightarrow> string" where
  "int_strip s = rev (dropWhile int_isspace (rev (dropWhile int_isspace s)))"

definition is_digit :: "char \<Rightarrow> bool" where
  "is_digit c = (let n = (of_char c :: nat) in 48 \<le> n \<and> n \<le> 57)"

definition digit_val :: "char \<Rightarrow> nat" where
  "digit_val c = of_char c - 48"

definition max_str_digits :: nat where
  "max_str_digits = 4300"

fun digits_acc :: "nat \<Rightarrow> string \<Rightarrow> nat option" where
  "digits_acc acc [] = Some acc"
| "digits_acc acc [c] = (if is_digit c then Some (acc * 10 + digit_val c) else None)"
| "digits_acc acc (c # d # cs) =
     (if c = CHR ''_'' then
        (if is_digit d then digits_acc (acc * 10 + digit_val d) cs else None)
      else if is_digit c then digits_acc (acc * 10 + digit_val c) (d # cs)
      else None)"

definition unsigned_int :: "string \<Rightarrow> nat option" where
  "unsigned_int s =
     (case s of [] \<Rightarrow> None
      | c # cs \<Rightarrow>
          if is_digit c \<and> length (filter is_digit s) \<le> max_str_digits
          then digits_acc (digit_val c) cs else None)"

definition py_int :: "string \<Rightarrow> int option" where
  "py_int s =
     (case int_strip s of [] \<Rightarrow> None
      | c # cs \<Rightarrow>
          if c = CHR ''-'' then map_option (\<lambda>n. - int n) (unsigned_int cs)
          else if c = CHR ''+'' then map_option int (unsigned_int cs)
          else map_option int (unsigned_int (c # cs)))"

subsection \<open>Standard input, standard output, exceptions\<close>

text \<open>
  Standard input is the list of events still to come: a line the user enters (without
  its newline), or the interrupt key pressed while the program waits for a line. When
  the list is empty the stream is at its end, and \<^verbatim>\<open>input\<close> raises \<^verbatim>\<open>EOFError\<close>.
  Standard output is the text written so far.
\<close>

datatype event = Line string | Interrupt

record world =
  inp :: "event list"
  out :: string

datatype exn = KeyboardInterrupt | EOFError | SystemExit int

definition py_print :: "string \<Rightarrow> world \<Rightarrow> world" where
  "py_print s w = w\<lparr>out := out w @ s @ ''\<newline>''\<rparr>"

definition py_input :: "string \<Rightarrow> world \<Rightarrow> (exn + string) \<times> world" where
  "py_input prompt w =
     (case inp w of
        [] \<Rightarrow> (Inl EOFError, w\<lparr>out := out w @ prompt\<rparr>)
      | Line s # rest \<Rightarrow> (Inr s, w\<lparr>inp := rest, out := out w @ prompt\<rparr>)
      | Interrupt # rest \<Rightarrow> (Inl KeyboardInterrupt, w\<lparr>inp := rest, out := out w @ prompt\<rparr>))"

subsection \<open>Helper functions\<close>

text \<open>\<^verbatim>\<open>next((t for t in tasks if t["id"] == task_id), None)\<close>: the first match.\<close>

fun find_task :: "task list \<Rightarrow> int \<Rightarrow> task option" where
  "find_task [] task_id = None"
| "find_task (t # ts) task_id = (if id_num t = task_id then Some t else find_task ts task_id)"

text \<open>\<^verbatim>\<open>max(xs, default=0)\<close>: the running maximum of the generator, 0 when it is empty.\<close>

definition py_max_default0 :: "int list \<Rightarrow> int" where
  "py_max_default0 xs = (case xs of [] \<Rightarrow> 0 | y # ys \<Rightarrow> fold max ys y)"

definition get_next_id :: "task list \<Rightarrow> int" where
  "get_next_id tasks = py_max_default0 (map id_num tasks) + 1"


text \<open>
  \<^verbatim>\<open>find_task\<close> returns the dictionary itself, not a copy, so an assignment to one of its
  keys shows in the list at the place of the first task with that id. \<open>replace_found\<close>
  is the list after such assignments have turned that dictionary into \<open>t'\<close>. (No
  dictionary occurs twice in the list: \<^verbatim>\<open>add_task\<close> builds a fresh one for each task.)
\<close>

fun replace_found :: "task list \<Rightarrow> int \<Rightarrow> task \<Rightarrow> task list" where
  "replace_found [] task_id t' = []"
| "replace_found (t # ts) task_id t' =
     (if id_num t = task_id then t' # ts else t # replace_found ts task_id t')"

definition not_found_msg :: "int \<Rightarrow> string" where
  "not_found_msg task_id = ''Task with ID '' @ py_str task_id @ '' not found.''"

subsection \<open>Core operations\<close>

text \<open>
  \<^verbatim>\<open>add_task(tasks) -> None\<close>. The result pairs the value returned, which is
  \<^verbatim>\<open>None\<close> (\<open>()\<close> here), with the task list after the call; an exception raised by
  one of the two \<^verbatim>\<open>input\<close> calls leaves the function before the list is touched.
  The functions returning \<^verbatim>\<open>bool\<close> below pair their value with the list likewise.
\<close>

definition add_task :: "task list \<Rightarrow> world \<Rightarrow> (exn + unit \<times> task list) \<times> world" where
  "add_task tasks w =
     (case py_input ''Title: '' w of
        (Inl e, w1) \<Rightarrow> (Inl e, w1)
      | (Inr line1, w1) \<Rightarrow>
          (case py_input ''Description: '' w1 of
             (Inl e, w2) \<Rightarrow> (Inl e, w2)
           | (Inr line2, w2) \<Rightarrow>
               (let task_id = get_next_id tasks
                in (Inr ((), tasks @ [\<lparr>id_num = task_id, title = py_strip line1,
                                        desc = py_strip line2, complete = False\<rparr>]),
                    py_print (''Task added successfully (ID: '' @ py_str task_id @ '').'') w2))))"

definition task_line :: "task \<Rightarrow> string" where
  "task_line t =
     py_str (id_num t) @ ''. '' @ (if complete t then ''[X]'' else ''[ ]'') @ '' ''
       @ title t @ '' - '' @ desc t"

text \<open>The \<^verbatim>\<open>for task in tasks\<close> loop of \<^verbatim>\<open>print_tasks\<close>.\<close>

fun print_task_lines :: "task list \<Rightarrow> world \<Rightarrow> world" where
  "print_task_lines [] w = w"
| "print_task_lines (t # ts) w = print_task_lines ts (py_print (task_line t) w)"

text \<open>\<^verbatim>\<open>print_tasks(tasks) -> None\<close> only reads the list, so its result is the new world.\<close>

definition print_tasks :: "task list \<Rightarrow> world \<Rightarrow> world" where
  "print_tasks tasks w =
     (if tasks = [] then py_print ''No tasks yet. Add one!'' w
      else print_task_lines tasks (py_print ''------'' (py_print ''Tasks:'' w)))"

text \<open>
  \<^verbatim>\<open>delete_task(tasks, task_id) -> bool\<close>. \<^verbatim>\<open>tasks.remove(task)\<close> removes the first
  element equal to \<open>task\<close>, and dictionaries compare by value, as \<open>remove1\<close> does.
\<close>

definition delete_task :: "task list \<Rightarrow> int \<Rightarrow> world \<Rightarrow> (bool \<times> task list) \<times> world" where
  "delete_task tasks task_id w =
     (case find_task tasks task_id of
        Some t \<Rightarrow> ((True, remove1 t tasks), w)
      | None \<Rightarrow> ((False, tasks), py_print (not_found_msg task_id) w))"

text \<open>\<^verbatim>\<open>update_task(tasks, task_id) -> bool\<close>.\<close>

definition update_task ::
  "task list \<Rightarrow> int \<Rightarrow> world \<Rightarrow> (exn + bool \<times> task list) \<times> world" where
  "update_task tasks task_id w =
     (case find_task tasks task_id of
        None \<Rightarrow> (Inr (False, tasks), py_print (not_found_msg task_id) w)
      | Some t \<Rightarrow>
          (let w1 = py_print (''Current title: '' @ title t) w;
               w2 = py_print (''Current description: '' @ desc t) w1
           in case py_input ''New title (press Enter to keep): '' w2 of
                (Inl e, w3) \<Rightarrow> (Inl e, w3)
              | (Inr line1, w3) \<Rightarrow>
                  (case py_input ''New description (press Enter to keep): '' w3 of
                     (Inl e, w4) \<Rightarrow> (Inl e, w4)
                   | (Inr line2, w4) \<Rightarrow>
                       (let new_title = py_strip line1;
                            new_desc = py_strip line2;
                            t1 = (if new_title \<noteq> [] then t\<lparr>title := new_title\<rparr> else t);
                            t2 = (if new_desc \<noteq> [] then t1\<lparr>desc := new_desc\<rparr> else t1);
                            changed = (new_title \<noteq> [] \<or> new_desc \<noteq> [])
                        in (Inr (True, replace_found tasks task_id t2),
                            if changed then py_print ''Task updated.'' w4 else w4)))))"

text \<open>\<^verbatim>\<open>toggle_complete(tasks, task_id) -> bool\<close>.\<close>

definition toggle_complete ::
  "task list \<Rightarrow> int \<Rightarrow> world \<Rightarrow> (bool \<times> task list) \<times> world" where
  "toggle_complete tasks task_id w =
     (case find_task tasks task_id of
        None \<Rightarrow> ((False, tasks), py_print (not_found_msg task_id) w)
      | Some t \<Rightarrow>
          (let t' = t\<lparr>complete := \<not> complete t\<rparr>
           in ((True, replace_found tasks task_id t'),
               if complete t' then py_print ''Task marked as complete.'' w
               else py_print ''Task marked as incomplete.'' w)))"

subsection \<open>UI functions\<close>

definition display_menu :: "world \<Rightarrow> world" where
  "display_menu w =
     py_print ''0. Exit''
      (py_print ''5. Mark as Complete/Incomplete''
        (py_print ''4. Delete Task''
          (py_print ''3. Update Task''
            (py_print ''2. View Tasks''
              (py_print ''1. Add Task''
                (py_print ''========''
                  (py_print ''\<newline>Welcome to my Todo App'' w)))))))"

text \<open>
  \<^verbatim>\<open>get_int_input\<close>: the \<^verbatim>\<open>while True\<close> loop goes round once more for each line
  that is not an integer, so each round consumes one event of the input.
\<close>

function get_int_input :: "string \<Rightarrow> world \<Rightarrow> (exn + int) \<times> world" where
  "get_int_input prompt w =
     (case py_input prompt w of
        (Inr s, w1) \<Rightarrow>
          (case py_int s of
             Some n \<Rightarrow> (Inr n, w1)
           | None \<Rightarrow>
               get_int_input prompt (py_print ''Invalid input. Please enter a valid integer.'' w1))
      | (Inl KeyboardInterrupt, w1) \<Rightarrow> (Inl (SystemExit 0), py_print ''\<newline>Goodbye!'' w1)
      | (Inl e, w1) \<Rightarrow> (Inl e, w1))"
  by pat_completeness auto
termination
  by (relation "measure (\<lambda>(prompt, w). length (inp w))")
     (auto simp: py_input_def py_print_def split: list.splits event.splits)

declare get_int_input.simps [simp del]


text \<open>\<^verbatim>\<open>get_menu_choice\<close>: shows the menu and asks until the answer is in 0..5.\<close>

function get_menu_choice :: "world \<Rightarrow> (exn + int) \<times> world" where
  "get_menu_choice w =
     (case get_int_input ''Choose an option: '' (display_menu w) of
        (Inl e, w1) \<Rightarrow> (Inl e, w1)
      | (Inr choice, w1) \<Rightarrow>
          if 0 \<le> choice \<and> choice \<le> 5 then (Inr choice, w1)
          else get_menu_choice
                 (py_print (''Option '' @ py_str choice @ '' not valid. Please choose 0-5.'') w1))"
  by pat_completeness auto
termination
proof (relation "measure (\<lambda>w. length (inp w))")
  show "wf (measure (\<lambda>w. length (inp w)))" by simp
next
  fix w w1 :: world and r :: "exn + int" and choice :: int
  assume a: "(r, w1) = get_int_input ''Choose an option: '' (display_menu w)"
    "r = Inr choice" "\<not> (0 \<le> choice \<and> choice \<le> 5)"
  have less: "length (inp w') < length (inp v)"
    if "get_int_input p v = (Inr n, w')" for p v n w'
    using that
  proof (induction p v rule: get_int_input.induct)
    case (1 prompt v)
    then show ?case
      by (subst (asm) (2) get_int_input.simps)
         (fastforce simp: py_input_def py_print_def
            split: list.splits event.splits option.splits)
  qed
  have "length (inp w1) < length (inp (display_menu w))"
    using a less [of "''Choose an option: ''" "display_menu w" choice w1] by simp
  then show "(py_print (''Option '' @ py_str choice @ '' not valid. Please choose 0-5.'') w1, w)
               \<in> measure (\<lambda>w. length (inp w))"
    by (simp add: py_print_def display_menu_def)
qed

declare get_menu_choice.simps [simp del]


text \<open>
  \<^verbatim>\<open>str.lower()\<close> on the code points below 256: the letters A to Z, and the accented
  capitals from 192 to 222 apart from the multiplication sign (215).
\<close>

definition py_lower_char :: "char \<Rightarrow> char" where
  "py_lower_char c =
     (let n = (of_char c :: nat)
      in if (65 \<le> n \<and> n \<le> 90) \<or> (192 \<le> n \<and> n \<le> 222 \<and> n \<noteq> 215) then char_of (n + 32)
         else c)"

definition py_lower :: "string \<Rightarrow> string" where
  "py_lower s = map py_lower_char s"

text \<open>\<^verbatim>\<open>confirm\<close>: no caller in the program; its \<^verbatim>\<open>input\<close> is not guarded.\<close>

function confirm :: "string \<Rightarrow> world \<Rightarrow> (exn + bool) \<times> world" where
  "confirm prompt w =
     (case py_input prompt w of
        (Inl e, w1) \<Rightarrow> (Inl e, w1)
      | (Inr s, w1) \<Rightarrow>
          (let response = py_lower s
           in if response \<in> set [''y'', ''yes''] then (Inr True, w1)
              else if response \<in> set [''n'', ''no''] then (Inr False, w1)
              else confirm prompt (py_print ''Invalid input. Please enter 'y' or 'n'.'' w1)))"
  by pat_completeness auto
termination
  by (relation "measure (\<lambda>(prompt, w). length (inp w))")
     (auto simp: py_input_def py_print_def split: list.splits event.splits)

declare confirm.simps [simp del]

subsection \<open>Main event loop\<close>

text \<open>
  The \<^verbatim>\<open>while True\<close> loop of \<^verbatim>\<open>main\<close>, from a given task list. It returns the list
  as it is when choice 0 breaks the loop, or the exception that ended it. The last
  branch is the fall-through of the \<^verbatim>\<open>if\<close>/\<^verbatim>\<open>elif\<close> chain.
\<close>

function main_loop :: "task list \<Rightarrow> world \<Rightarrow> (exn + task list) \<times> world" where
  "main_loop tasks w =
     (case get_menu_choice w of
        (Inl e, w1) \<Rightarrow> (Inl e, w1)
      | (Inr choice, w1) \<Rightarrow>
          if choice = 0 then (Inr tasks, w1)
          else if choice = 1 then
            (case add_task tasks w1 of
               (Inl e, w2) \<Rightarrow> (Inl e, w2)
             | (Inr (none, tasks'), w2) \<Rightarrow> main_loop tasks' w2)
          else if choice = 2 then main_loop tasks (print_tasks tasks w1)
          else if choice = 3 then
            (case get_int_input ''Enter task ID to update: '' w1 of
               (Inl e, w2) \<Rightarrow> (Inl e, w2)
             | (Inr task_id, w2) \<Rightarrow>
                 (case update_task tasks task_id w2 of
                    (Inl e, w3) \<Rightarrow> (Inl e, w3)
                  | (Inr (found, tasks'), w3) \<Rightarrow> main_loop tasks' w3))
          else if choice = 4 then
            (case get_int_input ''Enter task ID to delete: '' w1 of
               (Inl e, w2) \<Rightarrow> (Inl e, w2)
             | (Inr task_id, w2) \<Rightarrow>
                 (case delete_task tasks task_id w2 of
                    ((found, tasks'), w3) \<Rightarrow> main_loop tasks' w3))
          else if choice = 5 then
            (case get_int_input ''Enter task ID to toggle: '' w1 of
               (Inl e, w2) \<Rightarrow> (Inl e, w2)
             | (Inr task_id, w2) \<Rightarrow>
                 (case toggle_complete tasks task_id w2 of
                    ((found, tasks'), w3) \<Rightarrow> main_loop tasks' w3))
          else main_loop tasks w1)"
  by pat_completeness auto

termination
proof -
  have int_less: "length (inp w') < length (inp v)"
    if "get_int_input p v = (Inr n, w')" for p v n w'
    using that
  proof (induction p v rule: get_int_input.induct)
    case (1 prompt v)
    then show ?case
      by (subst (asm) (2) get_int_input.simps)
         (fastforce simp: py_input_def py_print_def
            split: list.splits event.splits option.splits)
  qed
  have menu_less: "length (inp w') < length (inp v)"
    if "get_menu_choice v = (Inr n, w')" for v n w'
    using that
  proof (induction v rule: get_menu_choice.induct)
    case (1 v)
    show ?case
    proof (cases "get_int_input ''Choose an option: '' (display_menu v)")
      case (Pair r v1)
      show ?thesis
      proof (cases r)
        case (Inl e)
        with Pair "1.prems" show ?thesis
          by (simp add: get_menu_choice.simps [of v])
      next
        case (Inr c)
        have step: "length (inp v1) < length (inp v)"
          using int_less [of "''Choose an option: ''" "display_menu v" c v1] Pair Inr
          by (simp add: display_menu_def py_print_def)
        show ?thesis
        proof (cases "0 \<le> c \<and> c \<le> 5")
          case True
          with Pair Inr "1.prems" step show ?thesis
            by (simp add: get_menu_choice.simps [of v])
        next
          case False
          with Pair Inr "1.prems" have
            "get_menu_choice
               (py_print (''Option '' @ py_str c @ '' not valid. Please choose 0-5.'') v1)
             = (Inr n, w')"
            by (simp add: get_menu_choice.simps [of v])
          from "1.IH" [OF Pair [symmetric] Inr False this] step show ?thesis
            by (simp add: py_print_def)
        qed
      qed
    qed
  qed
  have add_le: "length (inp w') \<le> length (inp v)" if "add_task ts v = (r, w')" for ts v r w'
    using that
    by (auto simp: add_task_def py_input_def py_print_def Let_def
          split: list.splits event.splits)
  have upd_le: "length (inp w') \<le> length (inp v)"
    if "update_task ts i v = (r, w')" for ts i v r w'
    using that
    by (auto simp: update_task_def py_input_def py_print_def Let_def
          split: list.splits event.splits option.splits if_splits)
  have del_eq: "inp w' = inp v" if "delete_task ts i v = (r, w')" for ts i v r w'
    using that by (auto simp: delete_task_def py_print_def split: option.splits)
  have tog_eq: "inp w' = inp v" if "toggle_complete ts i v = (r, w')" for ts i v r w'
    using that by (auto simp: toggle_complete_def py_print_def Let_def split: option.splits)
  have lines_eq: "inp (print_task_lines ts v) = inp v" for ts v
    by (induction ts arbitrary: v) (simp_all add: py_print_def)
  have prt_eq: "inp (print_tasks ts v) = inp v" for ts v
    by (simp add: print_tasks_def lines_eq py_print_def)
  have menu: "length (inp y) < length (inp w)"
    if "(x, y) = get_menu_choice w" "x = Inr b" for x y w b
    using that menu_less [of w b y] by simp
  have ask: "length (inp ya) < length (inp y)"
    if "(xa, ya) = get_int_input p y" "xa = Inr ba" for xa ya p y ba
    using that int_less [of p y ba ya] by simp
  show ?thesis
  proof (relation "measure (\<lambda>(tasks, w). length (inp w))")
    show "wf (measure (\<lambda>(tasks, w). length (inp w)))" by simp
  next
    fix tasks w x y b xa ya yc
    assume "(x, y) = get_menu_choice w" "x = Inr b" "(xa, ya) = add_task tasks y"
    then show "((yc, ya), tasks, w) \<in> measure (\<lambda>(tasks, w). length (inp w))"
      using menu [of x y w b] add_le [of tasks y xa ya] by simp
  next
    fix tasks w x y b
    assume "(x, y) = get_menu_choice w" "x = Inr b"
    then show "((tasks, print_tasks tasks y), tasks, w)
                 \<in> measure (\<lambda>(tasks, w). length (inp w))"
      using menu [of x y w b] by (simp add: prt_eq)
  next
    fix tasks w x y b xa ya ba xb yb yc
    assume "(x, y) = get_menu_choice w" "x = Inr b"
      "(xa, ya) = get_int_input ''Enter task ID to update: '' y" "xa = Inr ba"
      "(xb, yb) = update_task tasks ba ya"
    then show "((yc, yb), tasks, w) \<in> measure (\<lambda>(tasks, w). length (inp w))"
      using menu [of x y w b] ask [of xa ya "''Enter task ID to update: ''" y ba] upd_le [of tasks ba ya xb yb] by simp
  next
    fix tasks w x y b xa ya ba xb yb yc
    assume "(x, y) = get_menu_choice w" "x = Inr b"
      "(xa, ya) = get_int_input ''Enter task ID to delete: '' y" "xa = Inr ba"
      "(xb, yb) = delete_task tasks ba ya"
    then show "((yc, yb), tasks, w) \<in> measure (\<lambda>(tasks, w). length (inp w))"
      using menu [of x y w b] ask [of xa ya "''Enter task ID to delete: ''" y ba] del_eq [of tasks ba ya xb yb] by simp
  next
    fix tasks w x y b xa ya ba xb yb yc
    assume "(x, y) = get_menu_choice w" "x = Inr b"
      "(xa, ya) = get_int_input ''Enter task ID to toggle: '' y" "xa = Inr ba"
      "(xb, yb) = toggle_complete tasks ba ya"
    then show "((yc, yb), tasks, w) \<in> measure (\<lambda>(tasks, w). length (inp w))"
      using menu [of x y w b] ask [of xa ya "''Enter task ID to toggle: ''" y ba] tog_eq [of tasks ba ya xb yb] by simp
  next
    fix tasks :: "task list" and w x y b
    assume "(x, y) = get_menu_choice w" "x = Inr b"
    then show "((tasks, y), tasks, w) \<in> measure (\<lambda>(tasks, w). length (inp w))"
      using menu [of x y w b] by simp
  qed
qed

declare main_loop.simps [simp del]

text \<open>
  \<^verbatim>\<open>main() -> None\<close>. \<open>Inr ()\<close> is the normal return, after which the interpreter
  ends the process with status 0; \<open>Inl (SystemExit c)\<close> ends it with status \<open>c\<close>
  without a traceback; any other exception that reaches this point is uncaught, and
  the interpreter ends the process with a traceback and a status other than 0.
\<close>

definition main :: "world \<Rightarrow> (exn + unit) \<times> world" where
  "main w =
     (case main_loop [] w of
        (Inl e, w1) \<Rightarrow> (Inl e, w1)
      | (Inr tasks, w1) \<Rightarrow> (Inr (), py_print ''Goodbye! Have a nice day.'' w1))"

subsection \<open>Notions used to state the properties\<close>

text \<open>The eight lines \<open>display_menu\<close> prints, as one text.\<close>

definition menu_text :: string where
  "menu_text = out (display_menu \<lparr>inp = [], out = []\<rparr>)"

text \<open>
  How a run that started with the input \<open>evs\<close> has ended when the exception \<open>e\<close>
  leaves it in the world \<open>w'\<close>. For \<^verbatim>\<open>SystemExit\<close>: the status is 0, the last thing
  printed is the farewell of \<open>get_int_input\<close>, and the last event read was an
  interrupt. For \<^verbatim>\<open>EOFError\<close>: the input is used up. Nothing is said about a
  \<^verbatim>\<open>KeyboardInterrupt\<close> that reaches the top.
\<close>

definition ending :: "event list \<Rightarrow> exn \<Rightarrow> world \<Rightarrow> bool" where
  "ending evs e w' =
     (case e of
        SystemExit c \<Rightarrow>
          c = 0 \<and> (\<exists>pre. out w' = pre @ ''\<newline>Goodbye!\<newline>'') \<and>
          (\<exists>before. evs = before @ Interrupt # inp w')
      | EOFError \<Rightarrow> inp w' = []
      | KeyboardInterrupt \<Rightarrow> True)"

section \<open>Properties\<close>

subsection \<open>Facts about the helpers\<close>

lemma fold_max_Max: "fold max ys (y::int) = Max (set (y # ys))"
proof (induction ys arbitrary: y)
  case Nil
  show ?case by simp
next
  case (Cons z zs)
  have "fold max (z # zs) y = Max (set (max z y # zs))"
    using Cons.IH [of "max z y"] by simp
  also have "\<dots> = Max (insert y (insert z (set zs)))"
    by (cases "zs = []") (simp_all add: max.commute max.left_commute)
  finally show ?case by (simp add: insert_commute)
qed

lemma get_next_id_Nil: "get_next_id [] = 1"
  by (simp add: get_next_id_def py_max_default0_def)

lemma get_next_id_Max: "tasks \<noteq> [] \<Longrightarrow> get_next_id tasks = Max (id_num ` set tasks) + 1"
  by (cases tasks) (simp_all add: get_next_id_def py_max_default0_def fold_max_Max)

subsection \<open>The next id\<close>

text \<open>
  C4. \<open>get_next_id\<close> is 1 on the empty list and one more than the greatest id of a
  list that is not empty; two lists that hold the same set of ids, in whatever order and
  however many tasks carry each id, get the same next id.
\<close>

theorem get_next_id_formula:
  "get_next_id [] = 1 \<and>
   (tasks \<noteq> [] \<longrightarrow> get_next_id tasks = Max (id_num ` set tasks) + 1) \<and>
   (id_num ` set tasks = id_num ` set tasks' \<longrightarrow> get_next_id tasks = get_next_id tasks')"
proof -
  have "get_next_id tasks = get_next_id tasks'" if eq: "id_num ` set tasks = id_num ` set tasks'"
  proof (cases "tasks = []")
    case True
    with eq have "tasks' = []" by simp
    with True show ?thesis by simp
  next
    case False
    with eq have "tasks' \<noteq> []" by auto
    with False eq show ?thesis by (simp add: get_next_id_Max)
  qed
  with get_next_id_Nil get_next_id_Max show ?thesis by blast
qed

theorem get_next_id_formula_witness:
  "get_next_id [\<lparr>id_num = 1, title = ''a'', desc = '''', complete = False\<rparr>,
                \<lparr>id_num = 3, title = ''c'', desc = '''', complete = True\<rparr>] = 4 \<and>
   get_next_id [\<lparr>id_num = 3, title = ''x'', desc = ''y'', complete = False\<rparr>,
                \<lparr>id_num = 1, title = ''a'', desc = '''', complete = False\<rparr>,
                \<lparr>id_num = 3, title = ''c'', desc = '''', complete = True\<rparr>] = 4"
proof -
  let ?a = "[\<lparr>id_num = 1, title = ''a'', desc = '''', complete = False\<rparr>,
             \<lparr>id_num = 3, title = ''c'', desc = '''', complete = True\<rparr>]"
  let ?b = "[\<lparr>id_num = 3, title = ''x'', desc = ''y'', complete = False\<rparr>,
             \<lparr>id_num = 1, title = ''a'', desc = '''', complete = False\<rparr>,
             \<lparr>id_num = 3, title = ''c'', desc = '''', complete = True\<rparr>]"
  have ne: "?a \<noteq> []" by simp
  have same: "id_num ` set ?a = id_num ` set ?b" by auto
  from get_next_id_formula [of ?a ?b] ne same show ?thesis by simp
qed

lemma find_task_Some:
  "find_task tasks task_id = Some t \<Longrightarrow>
   \<exists>pre post. tasks = pre @ t # post \<and> find_task pre task_id = None \<and> id_num t = task_id"
proof (induction tasks)
  case Nil
  then show ?case by simp
next
  case (Cons a tasks)
  show ?case
  proof (cases "id_num a = task_id")
    case True
    with Cons.prems have "a # tasks = [] @ t # tasks \<and> find_task [] task_id = None
        \<and> id_num t = task_id"
      by simp
    then show ?thesis by blast
  next
    case False
    with Cons obtain pre post where
      "tasks = pre @ t # post" "find_task pre task_id = None" "id_num t = task_id"
      by auto
    with False have "a # tasks = (a # pre) @ t # post \<and> find_task (a # pre) task_id = None
        \<and> id_num t = task_id"
      by simp
    then show ?thesis by blast
  qed
qed

lemma find_task_None: "find_task tasks task_id = None \<longleftrightarrow> task_id \<notin> id_num ` set tasks"
  by (induction tasks) auto

lemma find_task_append:
  "find_task pre task_id = None \<Longrightarrow> find_task (pre @ ts) task_id = find_task ts task_id"
  by (induction pre) (auto split: if_splits)

lemma remove1_found:
  "find_task pre task_id = None \<Longrightarrow> id_num t = task_id \<Longrightarrow> remove1 t (pre @ t # post) = pre @ post"
  by (induction pre) (auto split: if_splits)

lemma replace_found_split:
  "find_task pre task_id = None \<Longrightarrow> id_num t = task_id \<Longrightarrow>
   replace_found (pre @ t # post) task_id t' = pre @ t' # post"
  by (induction pre) (auto split: if_splits)

lemma print_task_lines_out:
  "print_task_lines tasks w = w\<lparr>out := out w @ concat (map (\<lambda>t. task_line t @ ''\<newline>'') tasks)\<rparr>"
  by (induction tasks arbitrary: w) (simp_all add: py_print_def)

lemma str_nat_digit: "n < 10 \<Longrightarrow> str_nat n = [digit_char n]"
  by (simp add: str_nat.simps)

lemma py_str_digit:
  "py_str 0 = ''0''" "py_str 1 = ''1''" "py_str 2 = ''2''" "py_str 3 = ''3''" "py_str 4 = ''4''"
  by (simp_all add: py_str_def str_nat_digit digit_char_def)

subsection \<open>Adding a task\<close>

text \<open>
  C5, as the code has it. \<open>add_task\<close> reads the title and the description from the next
  two input lines and strips them; it appends one task at the end of the list, with the
  id \<open>get_next_id\<close> gives for the list before the call and with \<open>complete = False\<close>,
  and leaves the tasks already there as they are and in their order. It returns
  \<^verbatim>\<open>None\<close>: the id it assigned is reported in the printed line
  \<^verbatim>\<open>Task added successfully (ID: <id>).\<close> On the empty list the result is a single
  task with id 1.
\<close>

theorem add_task_appends:
  "add_task tasks \<lparr>inp = Line l1 # Line l2 # rest, out = txt\<rparr> =
     (Inr ((), tasks @ [\<lparr>id_num = get_next_id tasks, title = py_strip l1,
                           desc = py_strip l2, complete = False\<rparr>]),
      \<lparr>inp = rest,
         out = txt @ ''Title: Description: Task added successfully (ID: ''
                 @ py_str (get_next_id tasks) @ '').\<newline>''\<rparr>) \<and>
   add_task [] \<lparr>inp = Line l1 # Line l2 # rest, out = txt\<rparr> =
     (Inr ((), [\<lparr>id_num = 1, title = py_strip l1, desc = py_strip l2, complete = False\<rparr>]),
      \<lparr>inp = rest,
         out = txt @ ''Title: Description: Task added successfully (ID: 1).\<newline>''\<rparr>)"
proof -
  have general: "add_task ts \<lparr>inp = Line l1 # Line l2 # rest, out = txt\<rparr> =
     (Inr ((), ts @ [\<lparr>id_num = get_next_id ts, title = py_strip l1,
                        desc = py_strip l2, complete = False\<rparr>]),
      \<lparr>inp = rest,
         out = txt @ ''Title: Description: Task added successfully (ID: ''
                 @ py_str (get_next_id ts) @ '').\<newline>''\<rparr>)" for ts
    by (simp add: add_task_def py_input_def py_print_def Let_def)
  from general [of tasks] general [of "[]"] show ?thesis
    by (simp add: get_next_id_Nil py_str_digit)
qed

theorem add_task_appends_witness:
  "add_task [\<lparr>id_num = 1, title = ''a'', desc = '''', complete = True\<rparr>,
             \<lparr>id_num = 3, title = ''c'', desc = ''d'', complete = False\<rparr>]
     \<lparr>inp = [Line '' Buy milk '', Line ''2%'', Line ''0''], out = ''''\<rparr> =
     (Inr ((), [\<lparr>id_num = 1, title = ''a'', desc = '''', complete = True\<rparr>,
                \<lparr>id_num = 3, title = ''c'', desc = ''d'', complete = False\<rparr>,
                \<lparr>id_num = 4, title = ''Buy milk'', desc = ''2%'', complete = False\<rparr>]),
      \<lparr>inp = [Line ''0''],
         out = ''Title: Description: Task added successfully (ID: 4).\<newline>''\<rparr>)"
proof -
  let ?ts = "[\<lparr>id_num = 1, title = ''a'', desc = '''', complete = True\<rparr>,
              \<lparr>id_num = 3, title = ''c'', desc = ''d'', complete = False\<rparr>]"
  have next_id: "get_next_id ?ts = 4"
    by (simp add: get_next_id_def py_max_default0_def)
  have strip1: "py_strip '' Buy milk '' = ''Buy milk''" and strip2: "py_strip ''2%'' = ''2%''"
    by (simp_all add: py_strip_def py_isspace_def)
  from add_task_appends [of ?ts "'' Buy milk ''" "''2%''" "[Line ''0'']" "''''"]
  show ?thesis
    by (simp add: next_id strip1 strip2 py_str_digit)
qed

text \<open>
  The value \<open>add_task\<close> returns is \<^verbatim>\<open>None\<close>, not the id: on the empty list with the
  lines \<^verbatim>\<open>Buy milk\<close> and \<^verbatim>\<open>2%\<close> the task gets id 1, which shows in the list and in
  the output only.
\<close>

theorem add_task_returns_none:
  "add_task [] \<lparr>inp = [Line ''Buy milk'', Line ''2%''], out = ''''\<rparr> =
     (Inr ((), [\<lparr>id_num = 1, title = ''Buy milk'', desc = ''2%'', complete = False\<rparr>]),
      \<lparr>inp = [], out = ''Title: Description: Task added successfully (ID: 1).\<newline>''\<rparr>)"
  by (simp add: add_task_def py_input_def py_print_def Let_def get_next_id_Nil py_str_digit
        py_strip_def py_isspace_def)

subsection \<open>Deleting a task\<close>

lemma delete_task_found:
  assumes "find_task tasks task_id = Some t"
  shows "\<exists>pre post. tasks = pre @ t # post \<and> find_task pre task_id = None \<and>
           id_num t = task_id \<and> delete_task tasks task_id w = ((True, pre @ post), w)"
proof -
  from find_task_Some [OF assms] obtain pre post where
    split: "tasks = pre @ t # post" "find_task pre task_id = None" "id_num t = task_id"
    by blast
  then have "remove1 t tasks = pre @ post"
    by (simp add: remove1_found)
  with assms have "delete_task tasks task_id w = ((True, pre @ post), w)"
    by (simp add: delete_task_def)
  with split show ?thesis by blast
qed

lemma filter_other_ids:
  "task_id \<notin> id_num ` set ts \<Longrightarrow> filter (\<lambda>x. id_num x \<noteq> task_id) ts = ts"
  by (induction ts) auto

text \<open>
  C8. When no task has the id, \<open>delete_task\<close> returns \<open>False\<close>, leaves the list as it
  is and prints \<^verbatim>\<open>Task with ID <id> not found.\<close> When a task has it, \<open>delete_task\<close>
  returns \<open>True\<close>, prints nothing and takes out one task, the first with that id, and
  keeps the others in their order; with the ids of the list distinct, what remains is
  exactly the tasks with another id.
\<close>

theorem delete_task_removes_one:
  "(task_id \<notin> id_num ` set tasks \<longrightarrow>
      delete_task tasks task_id w =
        ((False, tasks), w\<lparr>out := out w @ ''Task with ID '' @ py_str task_id @ '' not found.\<newline>''\<rparr>)) \<and>
   (task_id \<in> id_num ` set tasks \<longrightarrow>
      (\<exists>pre t post. tasks = pre @ t # post \<and> task_id \<notin> id_num ` set pre \<and> id_num t = task_id \<and>
         delete_task tasks task_id w = ((True, pre @ post), w))) \<and>
   (task_id \<in> id_num ` set tasks \<and> distinct (map id_num tasks) \<longrightarrow>
      delete_task tasks task_id w = ((True, filter (\<lambda>x. id_num x \<noteq> task_id) tasks), w))"
proof (intro conjI impI)
  assume "task_id \<notin> id_num ` set tasks"
  then have "find_task tasks task_id = None"
    by (simp add: find_task_None)
  then show "delete_task tasks task_id w =
      ((False, tasks), w\<lparr>out := out w @ ''Task with ID '' @ py_str task_id @ '' not found.\<newline>''\<rparr>)"
    by (simp add: delete_task_def py_print_def not_found_msg_def)
next
  assume "task_id \<in> id_num ` set tasks"
  then obtain t where "find_task tasks task_id = Some t"
    using find_task_None [of tasks task_id] by (cases "find_task tasks task_id") auto
  from delete_task_found [OF this, of w]
  show "\<exists>pre t post. tasks = pre @ t # post \<and> task_id \<notin> id_num ` set pre \<and> id_num t = task_id \<and>
          delete_task tasks task_id w = ((True, pre @ post), w)"
    by (auto simp: find_task_None)
next
  assume a: "task_id \<in> id_num ` set tasks \<and> distinct (map id_num tasks)"
  then obtain t where "find_task tasks task_id = Some t"
    using find_task_None [of tasks task_id] by (cases "find_task tasks task_id") auto
  from delete_task_found [OF this, of w] obtain pre post where
    split: "tasks = pre @ t # post" "find_task pre task_id = None" "id_num t = task_id"
    and del: "delete_task tasks task_id w = ((True, pre @ post), w)"
    by blast
  from split a have "task_id \<notin> id_num ` set pre" "task_id \<notin> id_num ` set post"
    by (auto simp: find_task_None)
  with split have "filter (\<lambda>x. id_num x \<noteq> task_id) tasks = pre @ post"
    by (simp add: filter_other_ids)
  with del show "delete_task tasks task_id w =
      ((True, filter (\<lambda>x. id_num x \<noteq> task_id) tasks), w)"
    by simp
qed

text \<open>The tests' list with the ids 1, 2, 3: deleting 2 and then the absent 99.\<close>

theorem delete_task_removes_one_witness:
  "delete_task [\<lparr>id_num = 1, title = ''Task 1'', desc = ''Desc 1'', complete = False\<rparr>,
                \<lparr>id_num = 2, title = ''Task 2'', desc = ''Desc 2'', complete = False\<rparr>,
                \<lparr>id_num = 3, title = ''Task 3'', desc = ''Desc 3'', complete = False\<rparr>] 2
     \<lparr>inp = [], out = ''''\<rparr> =
     ((True, [\<lparr>id_num = 1, title = ''Task 1'', desc = ''Desc 1'', complete = False\<rparr>,
              \<lparr>id_num = 3, title = ''Task 3'', desc = ''Desc 3'', complete = False\<rparr>]),
      \<lparr>inp = [], out = ''''\<rparr>) \<and>
   delete_task [\<lparr>id_num = 1, title = ''Task 1'', desc = ''Desc 1'', complete = False\<rparr>] (- 7)
     \<lparr>inp = [], out = ''''\<rparr> =
     ((False, [\<lparr>id_num = 1, title = ''Task 1'', desc = ''Desc 1'', complete = False\<rparr>]),
      \<lparr>inp = [], out = ''Task with ID -7 not found.\<newline>''\<rparr>)"
proof -
  let ?ts = "[\<lparr>id_num = 1, title = ''Task 1'', desc = ''Desc 1'', complete = False\<rparr>,
              \<lparr>id_num = 2, title = ''Task 2'', desc = ''Desc 2'', complete = False\<rparr>,
              \<lparr>id_num = 3, title = ''Task 3'', desc = ''Desc 3'', complete = False\<rparr>]"
  let ?one = "[\<lparr>id_num = 1, title = ''Task 1'', desc = ''Desc 1'', complete = False\<rparr>]"
  have present: "2 \<in> id_num ` set ?ts \<and> distinct (map id_num ?ts)" by simp
  have absent: "- 7 \<notin> id_num ` set ?one" by simp
  have str: "py_str (- 7) = ''-7''"
    by (simp add: py_str_def str_nat_digit digit_char_def)
  from delete_task_removes_one [of 2 ?ts "\<lparr>inp = [], out = ''''\<rparr>"] present
  have first: "delete_task ?ts 2 \<lparr>inp = [], out = ''''\<rparr> =
      ((True, filter (\<lambda>x. id_num x \<noteq> 2) ?ts), \<lparr>inp = [], out = ''''\<rparr>)"
    by blast
  from delete_task_removes_one [of "- 7" ?one "\<lparr>inp = [], out = ''''\<rparr>"] absent
  have second: "delete_task ?one (- 7) \<lparr>inp = [], out = ''''\<rparr> =
      ((False, ?one), \<lparr>inp = [], out = ''''\<rparr>\<lparr>out := out \<lparr>inp = [], out = ''''\<rparr>
         @ ''Task with ID '' @ py_str (- 7) @ '' not found.\<newline>''\<rparr>)"
    by blast
  from first second show ?thesis by (simp add: str)
qed

subsection \<open>Listing the tasks\<close>

text \<open>
  C9. \<open>print_tasks\<close> only reads the list it is given (its result is the new world, it
  has no list to return) and leaves the input alone. What it adds to the output is
  determined by the list: the single line \<^verbatim>\<open>No tasks yet. Add one!\<close> for the empty
  list; otherwise the line \<^verbatim>\<open>Tasks:\<close>, a line of six \<^verbatim>\<open>-\<close>, and for each task
  in the order of the list one line \<^verbatim>\<open><id>. [X] <title> - <description>\<close>, with a
  space in place of the \<^verbatim>\<open>X\<close> for a task that is not complete.
\<close>

theorem print_tasks_output:
  "print_tasks [] w = w\<lparr>out := out w @ ''No tasks yet. Add one!\<newline>''\<rparr> \<and>
   (tasks \<noteq> [] \<longrightarrow>
      print_tasks tasks w =
        w\<lparr>out := out w @ ''Tasks:\<newline>'' @ ''------\<newline>'' @
             concat (map (\<lambda>t. py_str (id_num t) @ ''. ['' @ (if complete t then ''X'' else '' '')
                                @ ''] '' @ title t @ '' - '' @ desc t @ ''\<newline>'') tasks)\<rparr>)"
proof -
  have line: "task_line t @ ''\<newline>'' =
      py_str (id_num t) @ ''. ['' @ (if complete t then ''X'' else '' '')
        @ ''] '' @ title t @ '' - '' @ desc t @ ''\<newline>''" for t
    by (simp add: task_line_def)
  show ?thesis
    by (simp add: print_tasks_def print_task_lines_out py_print_def line)
qed

text \<open>The tests' list: one open task, one complete task.\<close>

theorem print_tasks_output_witness:
  "print_tasks [\<lparr>id_num = 1, title = ''Task 1'', desc = ''Desc 1'', complete = False\<rparr>,
                \<lparr>id_num = 2, title = ''Task 2'', desc = ''Desc 2'', complete = True\<rparr>]
     \<lparr>inp = [Line ''0''], out = ''''\<rparr> =
   \<lparr>inp = [Line ''0''],
      out = ''Tasks:\<newline>------\<newline>1. [ ] Task 1 - Desc 1\<newline>2. [X] Task 2 - Desc 2\<newline>''\<rparr>"
proof -
  let ?ts = "[\<lparr>id_num = 1, title = ''Task 1'', desc = ''Desc 1'', complete = False\<rparr>,
              \<lparr>id_num = 2, title = ''Task 2'', desc = ''Desc 2'', complete = True\<rparr>]"
  have ne: "?ts \<noteq> []" by simp
  from print_tasks_output [of "\<lparr>inp = [Line ''0''], out = ''''\<rparr>" ?ts] ne
  show ?thesis by (simp add: py_str_digit)
qed

subsection \<open>Toggling completion\<close>

lemma toggle_complete_found:
  assumes "find_task pre task_id = None" "id_num t = task_id"
  shows "toggle_complete (pre @ t # post) task_id w =
     ((True, pre @ t\<lparr>complete := \<not> complete t\<rparr> # post),
      w\<lparr>out := out w @ (if complete t then ''Task marked as incomplete.\<newline>''
                         else ''Task marked as complete.\<newline>'')\<rparr>)"
  using assms
  by (simp add: toggle_complete_def find_task_append replace_found_split py_print_def Let_def)

text \<open>
  C6. For an id that is in the list, \<open>toggle_complete\<close> returns \<open>True\<close>, flips the
  \<open>complete\<close> flag of the task \<open>find_task\<close> finds and prints which state the task is
  in now; a second call with the same id gives back the list as it was before the first.
\<close>

theorem toggle_complete_twice:
  assumes "find_task tasks task_id = Some t"
  shows "\<exists>tasks1 w1.
     toggle_complete tasks task_id w = ((True, tasks1), w1) \<and>
     find_task tasks1 task_id = Some (t\<lparr>complete := \<not> complete t\<rparr>) \<and>
     out w1 = out w @ (if complete t then ''Task marked as incomplete.\<newline>''
                       else ''Task marked as complete.\<newline>'') \<and>
     fst (toggle_complete tasks1 task_id w1) = (True, tasks)"
proof -
  from find_task_Some [OF assms] obtain pre post where
    split: "tasks = pre @ t # post" "find_task pre task_id = None" "id_num t = task_id"
    by blast
  let ?t' = "t\<lparr>complete := \<not> complete t\<rparr>"
  let ?w1 = "w\<lparr>out := out w @ (if complete t then ''Task marked as incomplete.\<newline>''
                               else ''Task marked as complete.\<newline>'')\<rparr>"
  have first: "toggle_complete tasks task_id w = ((True, pre @ ?t' # post), ?w1)"
    using split by (simp add: toggle_complete_found)
  have found: "find_task (pre @ ?t' # post) task_id = Some ?t'"
    using split by (simp add: find_task_append)
  have "id_num ?t' = task_id"
    using split by simp
  from toggle_complete_found [OF split(2) this, of post ?w1]
  have second: "fst (toggle_complete (pre @ ?t' # post) task_id ?w1) = (True, tasks)"
    using split by simp
  from first found second show ?thesis by simp
qed

text \<open>Scenario 3 of the specification: task 1, not complete, toggled twice.\<close>

theorem toggle_complete_twice_witness:
  "toggle_complete [\<lparr>id_num = 1, title = ''Task 1'', desc = ''Desc 1'', complete = False\<rparr>] 1
     \<lparr>inp = [], out = ''''\<rparr> =
     ((True, [\<lparr>id_num = 1, title = ''Task 1'', desc = ''Desc 1'', complete = True\<rparr>]),
      \<lparr>inp = [], out = ''Task marked as complete.\<newline>''\<rparr>) \<and>
   fst (toggle_complete [\<lparr>id_num = 1, title = ''Task 1'', desc = ''Desc 1'', complete = True\<rparr>] 1
          \<lparr>inp = [], out = ''Task marked as complete.\<newline>''\<rparr>) =
     (True, [\<lparr>id_num = 1, title = ''Task 1'', desc = ''Desc 1'', complete = False\<rparr>])"
proof -
  let ?t = "\<lparr>id_num = 1, title = ''Task 1'', desc = ''Desc 1'', complete = False\<rparr>"
  let ?w = "\<lparr>inp = [], out = ''''\<rparr>"
  have found: "find_task [?t] 1 = Some ?t" by simp
  have first: "toggle_complete [?t] 1 ?w =
      ((True, [?t\<lparr>complete := True\<rparr>]), \<lparr>inp = [], out = ''Task marked as complete.\<newline>''\<rparr>)"
    by (simp add: toggle_complete_def py_print_def Let_def)
  from toggle_complete_twice [OF found, of ?w] first show ?thesis
    by auto
qed

subsection \<open>Updating a task\<close>

lemma dropWhile_id: "xs \<noteq> [] \<Longrightarrow> \<not> P (hd xs) \<Longrightarrow> dropWhile P xs = xs"
  by (cases xs) simp_all

lemma dropWhile_keeps_last:
  "xs \<noteq> [] \<Longrightarrow> \<not> P (last xs) \<Longrightarrow> dropWhile P xs \<noteq> [] \<and> last (dropWhile P xs) = last xs"
  by (induction xs) (auto split: if_splits)

lemma py_strip_Nil: "py_strip [] = []"
  by (simp add: py_strip_def)

lemma py_strip_ends:
  "py_strip s = [] \<or> (\<not> py_isspace (hd (py_strip s)) \<and> \<not> py_isspace (last (py_strip s)))"
proof (cases "dropWhile py_isspace s = []")
  case True
  have "py_strip s = []"
    by (simp only: py_strip_def True rev.simps dropWhile.simps)
  then show ?thesis ..
next
  case False
  let ?u = "dropWhile py_isspace s"
  let ?v = "dropWhile py_isspace (rev ?u)"
  from False have hd_u: "\<not> py_isspace (hd ?u)"
    by (rule hd_dropWhile)
  from False have "rev ?u \<noteq> []" "last (rev ?u) = hd ?u"
    by (simp_all add: last_rev)
  with hd_u have v: "?v \<noteq> []" "last ?v = hd ?u"
    using dropWhile_keeps_last [of "rev ?u" py_isspace] by simp_all
  from v(1) have hd_v: "\<not> py_isspace (hd ?v)"
    by (rule hd_dropWhile)
  from v hd_u hd_v have "\<not> py_isspace (hd (rev ?v)) \<and> \<not> py_isspace (last (rev ?v))"
    by (simp add: hd_rev last_rev)
  then show ?thesis by (simp add: py_strip_def)
qed

lemma py_strip_idem: "py_strip (py_strip s) = py_strip s"
proof (cases "py_strip s = []")
  case True
  show ?thesis by (simp only: True py_strip_Nil)
next
  case False
  let ?x = "py_strip s"
  from False py_strip_ends [of s] have ends: "\<not> py_isspace (hd ?x)" "\<not> py_isspace (last ?x)"
    by simp_all
  from False ends(1) have "dropWhile py_isspace ?x = ?x"
    by (rule dropWhile_id)
  moreover from False ends(2) have "dropWhile py_isspace (rev ?x) = rev ?x"
    by (intro dropWhile_id) (simp_all add: hd_rev)
  ultimately show ?thesis
    by (simp add: py_strip_def [of ?x])
qed

lemma py_strip_spaces:
  assumes "list_all py_isspace s"
  shows "py_strip s = []"
proof -
  from assms have "dropWhile py_isspace s = []"
    by (simp add: list_all_iff)
  then show ?thesis
    by (simp only: py_strip_def rev.simps dropWhile.simps)
qed

text \<open>What one call does to a list in which the task is found, in full.\<close>

lemma update_task_found:
  assumes "find_task pre task_id = None" "id_num t = task_id"
  shows "update_task (pre @ t # post) task_id \<lparr>inp = Line l1 # Line l2 # rest, out = txt\<rparr> =
     (Inr (True,
           pre @ t\<lparr>title := (if py_strip l1 = [] then title t else py_strip l1),
                    desc := (if py_strip l2 = [] then desc t else py_strip l2)\<rparr> # post),
      \<lparr>inp = rest,
         out = txt @ ''Current title: '' @ title t @ ''\<newline>Current description: '' @ desc t
                 @ ''\<newline>New title (press Enter to keep): New description (press Enter to keep): ''
                 @ (if py_strip l1 = [] \<and> py_strip l2 = [] then [] else ''Task updated.\<newline>'')\<rparr>)"
  using assms
  by (simp add: update_task_def find_task_append replace_found_split py_print_def
        py_input_def Let_def)

text \<open>
  C2, as the code has it. For an id that is in the list, and two lines of input to
  read, \<open>update_task\<close> returns \<open>True\<close> whether or not it replaced a field: its value
  tells that the task was found and nothing more. That a field was replaced is reported
  by the printed line \<^verbatim>\<open>Task updated.\<close>, which appears exactly when one of the two
  lines is not empty once stripped; when both are empty the list is returned as it was.
\<close>

theorem update_task_returns_found:
  assumes "find_task tasks task_id = Some t"
  shows "\<exists>tasks' w'.
     update_task tasks task_id \<lparr>inp = Line l1 # Line l2 # rest, out = txt\<rparr>
       = (Inr (True, tasks'), w') \<and>
     out w' = txt @ ''Current title: '' @ title t @ ''\<newline>Current description: '' @ desc t
                @ ''\<newline>New title (press Enter to keep): New description (press Enter to keep): ''
                @ (if py_strip l1 = [] \<and> py_strip l2 = [] then [] else ''Task updated.\<newline>'') \<and>
     (py_strip l1 = [] \<and> py_strip l2 = [] \<longrightarrow> tasks' = tasks)"
proof -
  from find_task_Some [OF assms] obtain pre post where
    split: "tasks = pre @ t # post" "find_task pre task_id = None" "id_num t = task_id"
    by blast
  have same: "t\<lparr>title := a, desc := b\<rparr> = t \<longleftrightarrow> a = title t \<and> b = desc t" for a b
    by (cases t) auto
  show ?thesis
    unfolding split(1) update_task_found [OF split(2,3)]
    by (auto simp: same)
qed

text \<open>
  Scenario 4 of the specification, and the same call with two empty lines: both return
  \<open>True\<close>.
\<close>

theorem update_task_returns_found_witness:
  "update_task [\<lparr>id_num = 1, title = ''A'', desc = ''B'', complete = False\<rparr>] 1
     \<lparr>inp = [Line '''', Line ''X''], out = ''''\<rparr> =
     (Inr (True, [\<lparr>id_num = 1, title = ''A'', desc = ''X'', complete = False\<rparr>]),
      \<lparr>inp = [],
         out = ''Current title: A\<newline>Current description: B\<newline>New title (press Enter to keep): New description (press Enter to keep): Task updated.\<newline>''\<rparr>) \<and>
   (\<exists>w'. update_task [\<lparr>id_num = 1, title = ''A'', desc = ''B'', complete = False\<rparr>] 1
           \<lparr>inp = [Line '''', Line ''''], out = ''''\<rparr> =
           (Inr (True, [\<lparr>id_num = 1, title = ''A'', desc = ''B'', complete = False\<rparr>]), w') \<and>
         out w' = ''Current title: A\<newline>Current description: B\<newline>New title (press Enter to keep): New description (press Enter to keep): '')"
proof -
  let ?t = "\<lparr>id_num = 1, title = ''A'', desc = ''B'', complete = False\<rparr>"
  have found: "find_task [?t] 1 = Some ?t" by simp
  have strip: "py_strip '''' = []" "py_strip ''X'' = ''X''"
    by (simp_all add: py_strip_def py_isspace_def)
  have first: "update_task [?t] 1 \<lparr>inp = [Line '''', Line ''X''], out = ''''\<rparr> =
     (Inr (True, [\<lparr>id_num = 1, title = ''A'', desc = ''X'', complete = False\<rparr>]),
      \<lparr>inp = [],
         out = ''Current title: A\<newline>Current description: B\<newline>New title (press Enter to keep): New description (press Enter to keep): Task updated.\<newline>''\<rparr>)"
    using update_task_found [of "[]" 1 ?t "[]" "''''" "''X''" "[]" "''''"]
    by (simp add: strip)
  from update_task_returns_found [OF found, of "''''" "''''" "[]" "''''"]
  have "\<exists>w'. update_task [?t] 1 \<lparr>inp = [Line '''', Line ''''], out = ''''\<rparr> = (Inr (True, [?t]), w') \<and>
         out w' = ''Current title: A\<newline>Current description: B\<newline>New title (press Enter to keep): New description (press Enter to keep): ''"
    by (auto simp: strip)
  with first show ?thesis by simp
qed

text \<open>
  The value returned does not tell whether a field changed: on the task of scenario 4
  the call with two empty lines and the call that replaces the description both return
  \<open>True\<close>, the first with the list as it was, the second with another list.
\<close>

theorem update_task_return_value_same:
  "fst (update_task [\<lparr>id_num = 1, title = ''A'', desc = ''B'', complete = False\<rparr>] 1
          \<lparr>inp = [Line '''', Line ''''], out = ''''\<rparr>) =
     Inr (True, [\<lparr>id_num = 1, title = ''A'', desc = ''B'', complete = False\<rparr>]) \<and>
   fst (update_task [\<lparr>id_num = 1, title = ''A'', desc = ''B'', complete = False\<rparr>] 1
          \<lparr>inp = [Line '''', Line ''X''], out = ''''\<rparr>) =
     Inr (True, [\<lparr>id_num = 1, title = ''A'', desc = ''X'', complete = False\<rparr>])"
  by (simp add: update_task_def py_input_def py_print_def py_strip_def py_isspace_def Let_def)

text \<open>
  C7. For an id that is in the list, \<open>update_task\<close> touches the found task only, and
  there the id and the \<open>complete\<close> flag stay as they are. The title after the call is
  decided by the first line alone (kept when the line is empty once stripped, else the
  stripped line), the description by the second line alone in the same way; with both
  lines empty the task, and with it the whole list, is the same as before.
\<close>

theorem update_task_fields_independent:
  assumes "find_task tasks task_id = Some t"
  shows "\<exists>pre post t'.
     tasks = pre @ t # post \<and> find_task pre task_id = None \<and>
     fst (update_task tasks task_id \<lparr>inp = Line l1 # Line l2 # rest, out = txt\<rparr>)
       = Inr (True, pre @ t' # post) \<and>
     id_num t' = id_num t \<and> complete t' = complete t \<and>
     title t' = (if py_strip l1 = [] then title t else py_strip l1) \<and>
     desc t' = (if py_strip l2 = [] then desc t else py_strip l2) \<and>
     (l1 = [] \<and> l2 = [] \<longrightarrow> t' = t \<and> pre @ t' # post = tasks)"
proof -
  from find_task_Some [OF assms] obtain pre post where
    split: "tasks = pre @ t # post" "find_task pre task_id = None" "id_num t = task_id"
    by blast
  let ?t' = "t\<lparr>title := (if py_strip l1 = [] then title t else py_strip l1),
                desc := (if py_strip l2 = [] then desc t else py_strip l2)\<rparr>"
  have call: "fst (update_task tasks task_id \<lparr>inp = Line l1 # Line l2 # rest, out = txt\<rparr>)
      = Inr (True, pre @ ?t' # post)"
    unfolding split(1) update_task_found [OF split(2,3)] by simp
  have fields: "id_num ?t' = id_num t" "complete ?t' = complete t"
    "title ?t' = (if py_strip l1 = [] then title t else py_strip l1)"
    "desc ?t' = (if py_strip l2 = [] then desc t else py_strip l2)"
    by simp_all
  have neither: "l1 = [] \<and> l2 = [] \<longrightarrow> ?t' = t \<and> pre @ ?t' # post = tasks"
    by (simp add: py_strip_Nil split(1))
  from split(1,2) call fields neither show ?thesis by blast
qed

text \<open>
  The tests' three calls: a new title only, a new description only, neither.
\<close>

theorem update_task_fields_independent_witness:
  "fst (update_task [\<lparr>id_num = 1, title = ''Old Title'', desc = ''Original Desc'', complete = True\<rparr>] 1
          \<lparr>inp = [Line ''New Title'', Line ''''], out = ''''\<rparr>) =
     Inr (True, [\<lparr>id_num = 1, title = ''New Title'', desc = ''Original Desc'', complete = True\<rparr>]) \<and>
   fst (update_task [\<lparr>id_num = 1, title = ''Old Title'', desc = ''Original Desc'', complete = True\<rparr>] 1
          \<lparr>inp = [Line '''', Line ''New Description''], out = ''''\<rparr>) =
     Inr (True, [\<lparr>id_num = 1, title = ''Old Title'', desc = ''New Description'', complete = True\<rparr>]) \<and>
   fst (update_task [\<lparr>id_num = 1, title = ''Old Title'', desc = ''Original Desc'', complete = True\<rparr>] 1
          \<lparr>inp = [Line '''', Line ''''], out = ''''\<rparr>) =
     Inr (True, [\<lparr>id_num = 1, title = ''Old Title'', desc = ''Original Desc'', complete = True\<rparr>])"
proof -
  let ?t = "\<lparr>id_num = 1, title = ''Old Title'', desc = ''Original Desc'', complete = True\<rparr>"
  have found: "find_task [?t] 1 = Some ?t" by simp
  have strip: "py_strip '''' = []" "py_strip ''New Title'' = ''New Title''"
    "py_strip ''New Description'' = ''New Description''"
    by (simp_all add: py_strip_def py_isspace_def)
  have shape: "[?t] = pre @ ?t # post \<longleftrightarrow> pre = [] \<and> post = []" for pre post
    by (cases pre) auto
  have eq: "(t' :: task) = \<lparr>id_num = id_num t', title = title t', desc = desc t',
      complete = complete t'\<rparr>" for t'
    by simp
  have one: "fst (update_task [?t] 1 \<lparr>inp = [Line a, Line b], out = ''''\<rparr>) =
      Inr (True, [\<lparr>id_num = 1, title = (if py_strip a = [] then ''Old Title'' else py_strip a),
                     desc = (if py_strip b = [] then ''Original Desc'' else py_strip b),
                     complete = True\<rparr>])" for a b
  proof -
    from update_task_fields_independent [OF found, of a b "[]" "''''"]
    obtain pre post t' where
      r: "[?t] = pre @ ?t # post"
        "fst (update_task [?t] 1 \<lparr>inp = [Line a, Line b], out = ''''\<rparr>) = Inr (True, pre @ t' # post)"
        "id_num t' = id_num ?t" "complete t' = complete ?t"
        "title t' = (if py_strip a = [] then title ?t else py_strip a)"
        "desc t' = (if py_strip b = [] then desc ?t else py_strip b)"
      by blast
    from r(1) have "pre = []" "post = []"
      by (simp_all add: shape)
    with r(2-6) eq [of t'] show ?thesis by simp
  qed
  from one [of "''New Title''" "''''"] one [of "''''" "''New Description''"] one [of "''''" "''''"]
  show ?thesis
    by (simp add: strip)
qed

text \<open>
  C10. For an id that is in the list, \<open>update_task\<close> strips both lines before it tests
  them: the call on two lines does what the call on the stripped lines does; a line of
  whitespace only does what the empty line does; and the title and the description of
  the task after the call are each either what they were before, or a text that is not
  empty and has no whitespace at its first and at its last place.
\<close>

theorem update_task_strips_input:
  assumes "find_task tasks task_id = Some t"
  shows
    "update_task tasks task_id \<lparr>inp = Line l1 # Line l2 # rest, out = txt\<rparr> =
       update_task tasks task_id \<lparr>inp = Line (py_strip l1) # Line (py_strip l2) # rest, out = txt\<rparr> \<and>
     (list_all py_isspace l1 \<longrightarrow>
        update_task tasks task_id \<lparr>inp = Line l1 # Line l2 # rest, out = txt\<rparr> =
          update_task tasks task_id \<lparr>inp = Line [] # Line l2 # rest, out = txt\<rparr>) \<and>
     (list_all py_isspace l2 \<longrightarrow>
        update_task tasks task_id \<lparr>inp = Line l1 # Line l2 # rest, out = txt\<rparr> =
          update_task tasks task_id \<lparr>inp = Line l1 # Line [] # rest, out = txt\<rparr>) \<and>
     (\<exists>tasks' w' t'.
        update_task tasks task_id \<lparr>inp = Line l1 # Line l2 # rest, out = txt\<rparr>
          = (Inr (True, tasks'), w') \<and>
        find_task tasks' task_id = Some t' \<and>
        (title t' = title t \<or>
           title t' \<noteq> [] \<and> \<not> py_isspace (hd (title t')) \<and> \<not> py_isspace (last (title t'))) \<and>
        (desc t' = desc t \<or>
           desc t' \<noteq> [] \<and> \<not> py_isspace (hd (desc t')) \<and> \<not> py_isspace (last (desc t'))))"
proof -
  from find_task_Some [OF assms] obtain pre post where
    split: "tasks = pre @ t # post" "find_task pre task_id = None" "id_num t = task_id"
    by blast
  note call = update_task_found [OF split(2,3)]
  have stripped: "update_task tasks task_id \<lparr>inp = Line l1 # Line l2 # rest, out = txt\<rparr> =
      update_task tasks task_id \<lparr>inp = Line (py_strip l1) # Line (py_strip l2) # rest, out = txt\<rparr>"
    unfolding split(1) call by (simp add: py_strip_idem)
  have blank1: "update_task tasks task_id \<lparr>inp = Line l1 # Line l2 # rest, out = txt\<rparr> =
      update_task tasks task_id \<lparr>inp = Line [] # Line l2 # rest, out = txt\<rparr>"
    if "list_all py_isspace l1"
    unfolding split(1) call using that by (simp add: py_strip_spaces py_strip_Nil)
  have blank2: "update_task tasks task_id \<lparr>inp = Line l1 # Line l2 # rest, out = txt\<rparr> =
      update_task tasks task_id \<lparr>inp = Line l1 # Line [] # rest, out = txt\<rparr>"
    if "list_all py_isspace l2"
    unfolding split(1) call using that by (simp add: py_strip_spaces py_strip_Nil)
  let ?t' = "t\<lparr>title := (if py_strip l1 = [] then title t else py_strip l1),
                desc := (if py_strip l2 = [] then desc t else py_strip l2)\<rparr>"
  have found': "find_task (pre @ ?t' # post) task_id = Some ?t'"
    using split(2,3) by (simp add: find_task_append)
  have ends1: "title ?t' = title t \<or>
      title ?t' \<noteq> [] \<and> \<not> py_isspace (hd (title ?t')) \<and> \<not> py_isspace (last (title ?t'))"
    using py_strip_ends [of l1] by auto
  have ends2: "desc ?t' = desc t \<or>
      desc ?t' \<noteq> [] \<and> \<not> py_isspace (hd (desc ?t')) \<and> \<not> py_isspace (last (desc ?t'))"
    using py_strip_ends [of l2] by auto
  have "\<exists>tasks' w' t'.
        update_task tasks task_id \<lparr>inp = Line l1 # Line l2 # rest, out = txt\<rparr>
          = (Inr (True, tasks'), w') \<and>
        find_task tasks' task_id = Some t' \<and>
        (title t' = title t \<or>
           title t' \<noteq> [] \<and> \<not> py_isspace (hd (title t')) \<and> \<not> py_isspace (last (title t'))) \<and>
        (desc t' = desc t \<or>
           desc t' \<noteq> [] \<and> \<not> py_isspace (hd (desc t')) \<and> \<not> py_isspace (last (desc t')))"
    unfolding split(1) call using found' ends1 ends2 by blast
  with stripped blank1 blank2 show ?thesis by blast
qed

text \<open>
  A title given with blanks around it and a description of blanks only: the title is
  stored stripped, the description is kept.
\<close>

theorem update_task_strips_input_witness:
  "update_task [\<lparr>id_num = 1, title = ''A'', desc = ''B'', complete = False\<rparr>] 1
     \<lparr>inp = [Line ''  New  '', Line ''   ''], out = ''''\<rparr> =
   update_task [\<lparr>id_num = 1, title = ''A'', desc = ''B'', complete = False\<rparr>] 1
     \<lparr>inp = [Line ''  New  '', Line ''''], out = ''''\<rparr> \<and>
   fst (update_task [\<lparr>id_num = 1, title = ''A'', desc = ''B'', complete = False\<rparr>] 1
          \<lparr>inp = [Line ''  New  '', Line ''''], out = ''''\<rparr>) =
     Inr (True, [\<lparr>id_num = 1, title = ''New'', desc = ''B'', complete = False\<rparr>])"
proof -
  let ?t = "\<lparr>id_num = 1, title = ''A'', desc = ''B'', complete = False\<rparr>"
  have found: "find_task [?t] 1 = Some ?t" by simp
  have blank: "list_all py_isspace ''   ''"
    by (simp add: py_isspace_def)
  have strip: "py_strip '''' = []" "py_strip ''  New  '' = ''New''"
    by (simp_all add: py_strip_def py_isspace_def)
  from update_task_strips_input [OF found, of "''  New  ''" "''   ''" "[]" "''''"] blank
  have same: "update_task [?t] 1 \<lparr>inp = [Line ''  New  '', Line ''   ''], out = ''''\<rparr> =
      update_task [?t] 1 \<lparr>inp = [Line ''  New  '', Line ''''], out = ''''\<rparr>"
    by blast
  have "fst (update_task [?t] 1 \<lparr>inp = [Line ''  New  '', Line ''''], out = ''''\<rparr>) =
      Inr (True, [\<lparr>id_num = 1, title = ''New'', desc = ''B'', complete = False\<rparr>])"
    using update_task_found [of "[]" 1 ?t "[]" "''  New  ''" "''''" "[]" "''''"]
    by (simp add: strip)
  with same show ?thesis by simp
qed

subsection \<open>One round of the prompts and of the main loop\<close>

lemma display_menu_out: "display_menu w = w\<lparr>out := out w @ menu_text\<rparr>"
  by (simp add: display_menu_def py_print_def menu_text_def)

lemma get_int_input_line:
  "py_int s = Some n \<Longrightarrow>
   get_int_input prompt \<lparr>inp = Line s # rest, out = shown\<rparr> = (Inr n, \<lparr>inp = rest, out = shown @ prompt\<rparr>)"
  by (subst get_int_input.simps) (simp add: py_input_def)

lemma get_int_input_invalid:
  "py_int s = None \<Longrightarrow>
   get_int_input prompt \<lparr>inp = Line s # rest, out = shown\<rparr> =
     get_int_input prompt
       \<lparr>inp = rest, out = shown @ prompt @ ''Invalid input. Please enter a valid integer.\<newline>''\<rparr>"
  by (subst get_int_input.simps) (simp add: py_input_def py_print_def)

lemma get_int_input_interrupt:
  "get_int_input prompt \<lparr>inp = Interrupt # rest, out = shown\<rparr> =
     (Inl (SystemExit 0), \<lparr>inp = rest, out = shown @ prompt @ ''\<newline>Goodbye!\<newline>''\<rparr>)"
  by (subst get_int_input.simps) (simp add: py_input_def py_print_def)

lemma get_int_input_eof:
  "get_int_input prompt \<lparr>inp = [], out = shown\<rparr> = (Inl EOFError, \<lparr>inp = [], out = shown @ prompt\<rparr>)"
  by (subst get_int_input.simps) (simp add: py_input_def)

lemma get_menu_choice_line:
  "py_int s = Some n \<Longrightarrow> 0 \<le> n \<Longrightarrow> n \<le> 5 \<Longrightarrow>
   get_menu_choice \<lparr>inp = Line s # rest, out = shown\<rparr> =
     (Inr n, \<lparr>inp = rest, out = shown @ menu_text @ ''Choose an option: ''\<rparr>)"
  by (subst get_menu_choice.simps) (simp add: display_menu_out get_int_input_line)

lemma get_menu_choice_interrupt:
  "get_menu_choice \<lparr>inp = Interrupt # rest, out = shown\<rparr> =
     (Inl (SystemExit 0),
      \<lparr>inp = rest, out = shown @ menu_text @ ''Choose an option: \<newline>Goodbye!\<newline>''\<rparr>)"
  by (subst get_menu_choice.simps) (simp add: display_menu_out get_int_input_interrupt)

lemma get_menu_choice_eof:
  "get_menu_choice \<lparr>inp = [], out = shown\<rparr> =
     (Inl EOFError, \<lparr>inp = [], out = shown @ menu_text @ ''Choose an option: ''\<rparr>)"
  by (subst get_menu_choice.simps) (simp add: display_menu_out get_int_input_eof)

lemma main_loop_exit:
  "py_int s = Some 0 \<Longrightarrow>
   main_loop tasks \<lparr>inp = Line s # rest, out = shown\<rparr> =
     (Inr tasks, \<lparr>inp = rest, out = shown @ menu_text @ ''Choose an option: ''\<rparr>)"
  by (subst main_loop.simps) (simp add: get_menu_choice_line)

lemma main_loop_add:
  "py_int s = Some 1 \<Longrightarrow>
   main_loop tasks \<lparr>inp = Line s # Line l1 # Line l2 # rest, out = shown\<rparr> =
     main_loop
       (tasks @ [\<lparr>id_num = get_next_id tasks, title = py_strip l1, desc = py_strip l2,
                    complete = False\<rparr>])
       \<lparr>inp = rest,
          out = shown @ menu_text @ ''Choose an option: Title: Description: Task added successfully (ID: ''
                  @ py_str (get_next_id tasks) @ '').\<newline>''\<rparr>"
  by (subst main_loop.simps)
     (simp add: get_menu_choice_line add_task_def py_input_def py_print_def Let_def)

lemma main_loop_delete:
  "py_int s = Some 4 \<Longrightarrow> py_int i = Some task_id \<Longrightarrow> find_task tasks task_id = Some t \<Longrightarrow>
   main_loop tasks \<lparr>inp = Line s # Line i # rest, out = shown\<rparr> =
     main_loop (remove1 t tasks)
       \<lparr>inp = rest, out = shown @ menu_text @ ''Choose an option: Enter task ID to delete: ''\<rparr>"
  by (subst main_loop.simps)
     (simp add: get_menu_choice_line get_int_input_line delete_task_def)

lemma main_loop_interrupt:
  "main_loop tasks \<lparr>inp = Interrupt # rest, out = shown\<rparr> =
     (Inl (SystemExit 0),
      \<lparr>inp = rest, out = shown @ menu_text @ ''Choose an option: \<newline>Goodbye!\<newline>''\<rparr>)"
  by (subst main_loop.simps) (simp add: get_menu_choice_interrupt)

lemma main_loop_eof:
  "main_loop tasks \<lparr>inp = [], out = shown\<rparr> =
     (Inl EOFError, \<lparr>inp = [], out = shown @ menu_text @ ''Choose an option: ''\<rparr>)"
  by (subst main_loop.simps) (simp add: get_menu_choice_eof)

text \<open>
  \<open>py_int\<close> on some lines: blanks around the number, sign, underscore, leading zeros;
  a separator (code 28) before the digit is no whitespace for \<^verbatim>\<open>int\<close>, the no-break
  space is. A line with more than 4300 digits is refused whatever else it holds.
\<close>

lemma py_int_examples:
  "py_int ''  -12_3 '' = Some (- 123)" "py_int ''+7'' = Some 7" "py_int ''007'' = Some 7"
  "py_int ''abc'' = None" "py_int '''' = None" "py_int ''- 5'' = None" "py_int ''1__2'' = None"
  "py_int ''5_'' = None" "py_int [CHR 0x1C, CHR ''5''] = None" "py_int [CHR 0xA0, CHR ''5''] = Some 5"
  by (simp_all add: py_int_def int_strip_def int_isspace_def unsigned_int_def is_digit_def
        digit_val_def max_str_digits_def)

lemma filter_digits_dropWhile:
  "filter is_digit (dropWhile int_isspace s) = filter is_digit s"
  by (induction s) (auto simp: is_digit_def int_isspace_def Let_def)

lemma filter_digits_int_strip: "filter is_digit (int_strip s) = filter is_digit s"
proof -
  have "filter is_digit (int_strip s) =
      rev (filter is_digit (dropWhile int_isspace (rev (dropWhile int_isspace s))))"
    by (simp add: int_strip_def rev_filter)
  also have "\<dots> = rev (filter is_digit (rev (dropWhile int_isspace s)))"
    by (simp only: filter_digits_dropWhile)
  also have "\<dots> = filter is_digit s"
    by (simp add: rev_filter [symmetric] filter_digits_dropWhile)
  finally show ?thesis .
qed

lemma py_int_digit_limit:
  assumes "max_str_digits < length (filter is_digit s)"
  shows "py_int s = None"
proof (cases "int_strip s")
  case Nil
  then show ?thesis by (simp add: py_int_def)
next
  case (Cons c cs)
  from assms have many: "max_str_digits < length (filter is_digit (c # cs))"
    using filter_digits_int_strip [of s] Cons by simp
  have whole: "unsigned_int (c # cs) = None"
    using many by (simp add: unsigned_int_def)
  have tail: "unsigned_int cs = None" if "\<not> is_digit c"
  proof (cases cs)
    case Nil
    then show ?thesis by (simp add: unsigned_int_def)
  next
    case (Cons d ds)
    from many that have "max_str_digits < length (filter is_digit cs)" by simp
    with Cons show ?thesis by (simp add: unsigned_int_def)
  qed
  have sign: "\<not> is_digit (CHR ''-'')" "\<not> is_digit (CHR ''+'')"
    by (simp_all add: is_digit_def)
  from Cons whole tail sign show ?thesis
    by (auto simp: py_int_def)
qed

lemma py_int_digit:
  "py_int ''0'' = Some 0" "py_int ''1'' = Some 1" "py_int ''2'' = Some 2" "py_int ''3'' = Some 3"
  "py_int ''4'' = Some 4" "py_int ''5'' = Some 5"
  by (simp_all add: py_int_def int_strip_def int_isspace_def unsigned_int_def is_digit_def
        digit_val_def max_str_digits_def)

subsection \<open>Ids over the life of the list\<close>

text \<open>The id \<open>add_task\<close> assigns is above every id in the list at that moment.\<close>

lemma get_next_id_above: "t \<in> set tasks \<Longrightarrow> id_num t < get_next_id tasks"
proof -
  assume t: "t \<in> set tasks"
  then have "tasks \<noteq> []" by auto
  then have "get_next_id tasks = Max (id_num ` set tasks) + 1"
    by (rule get_next_id_Max)
  moreover from t have "id_num t \<le> Max (id_num ` set tasks)"
    by simp
  ultimately show ?thesis by simp
qed

text \<open>
  C1 fails on the code. A run of the program: add a task (it gets id 1), add a second
  (id 2), delete the task with id 2, add a third. The third task gets id 2 again: 2
  was the greatest id when it was deleted, so the greatest id left is 1. The transcript
  shows \<^verbatim>\<open>(ID: 2)\<close> twice, with the deletion between the two.
\<close>

theorem id_reused_after_deleting_max:
  "main \<lparr>inp = [Line ''1'', Line ''a'', Line ''x'', Line ''1'', Line ''b'', Line ''y'',
               Line ''4'', Line ''2'', Line ''1'', Line ''c'', Line ''z'', Line ''0''],
         out = ''''\<rparr> =
     (Inr (),
      \<lparr>inp = [],
         out = menu_text @ ''Choose an option: Title: Description: Task added successfully (ID: 1).\<newline>''
             @ menu_text @ ''Choose an option: Title: Description: Task added successfully (ID: 2).\<newline>''
             @ menu_text @ ''Choose an option: Enter task ID to delete: ''
             @ menu_text @ ''Choose an option: Title: Description: Task added successfully (ID: 2).\<newline>''
             @ menu_text @ ''Choose an option: Goodbye! Have a nice day.\<newline>''\<rparr>)"
proof -
  let ?a = "\<lparr>id_num = 1, title = ''a'', desc = ''x'', complete = False\<rparr>"
  let ?b = "\<lparr>id_num = 2, title = ''b'', desc = ''y'', complete = False\<rparr>"
  let ?c = "\<lparr>id_num = 2, title = ''c'', desc = ''z'', complete = False\<rparr>"
  have strip: "py_strip ''a'' = ''a''" "py_strip ''b'' = ''b''" "py_strip ''c'' = ''c''"
    "py_strip ''x'' = ''x''" "py_strip ''y'' = ''y''" "py_strip ''z'' = ''z''"
    by (simp_all add: py_strip_def py_isspace_def)
  have ids: "get_next_id [] = 1" "get_next_id [?a] = 2"
    by (simp_all add: get_next_id_def py_max_default0_def)
  have step1: "main_loop [] \<lparr>inp = [Line ''1'', Line ''a'', Line ''x'', Line ''1'', Line ''b'',
        Line ''y'', Line ''4'', Line ''2'', Line ''1'', Line ''c'', Line ''z'', Line ''0''], out = ''''\<rparr> =
      main_loop [?a] \<lparr>inp = [Line ''1'', Line ''b'', Line ''y'', Line ''4'', Line ''2'', Line ''1'',
        Line ''c'', Line ''z'', Line ''0''],
        out = menu_text @ ''Choose an option: Title: Description: Task added successfully (ID: 1).\<newline>''\<rparr>"
    by (simp add: main_loop_add py_int_digit strip ids py_str_digit)
  have step2: "main_loop [?a] \<lparr>inp = [Line ''1'', Line ''b'', Line ''y'', Line ''4'', Line ''2'',
        Line ''1'', Line ''c'', Line ''z'', Line ''0''], out = shown\<rparr> =
      main_loop [?a, ?b] \<lparr>inp = [Line ''4'', Line ''2'', Line ''1'', Line ''c'', Line ''z'', Line ''0''],
        out = shown @ menu_text @ ''Choose an option: Title: Description: Task added successfully (ID: 2).\<newline>''\<rparr>"
    for shown
    by (simp add: main_loop_add py_int_digit strip ids py_str_digit)
  have found: "find_task [?a, ?b] 2 = Some ?b" by simp
  have step3: "main_loop [?a, ?b] \<lparr>inp = [Line ''4'', Line ''2'', Line ''1'', Line ''c'', Line ''z'',
        Line ''0''], out = shown\<rparr> =
      main_loop [?a] \<lparr>inp = [Line ''1'', Line ''c'', Line ''z'', Line ''0''],
        out = shown @ menu_text @ ''Choose an option: Enter task ID to delete: ''\<rparr>"
    for shown
    using main_loop_delete [OF py_int_digit(5) py_int_digit(3) found] by simp
  have step4: "main_loop [?a] \<lparr>inp = [Line ''1'', Line ''c'', Line ''z'', Line ''0''], out = shown\<rparr> =
      main_loop [?a, ?c] \<lparr>inp = [Line ''0''],
        out = shown @ menu_text @ ''Choose an option: Title: Description: Task added successfully (ID: 2).\<newline>''\<rparr>"
    for shown
    by (simp add: main_loop_add py_int_digit strip ids py_str_digit)
  have step5: "main_loop [?a, ?c] \<lparr>inp = [Line ''0''], out = shown\<rparr> =
      (Inr [?a, ?c], \<lparr>inp = [], out = shown @ menu_text @ ''Choose an option: ''\<rparr>)"
    for shown
    by (simp add: main_loop_exit py_int_digit)
  show ?thesis
    unfolding main_def step1 step2 step3 step4 step5
    by (simp add: py_print_def)
qed

subsection \<open>How the functions leave the input, and how they fail\<close>

lemma ending_prefix: "ending evs e w' \<Longrightarrow> ending (pre @ evs) e w'"
proof (cases e)
  case (SystemExit c)
  assume "ending evs e w'"
  with SystemExit obtain shown before where
    "c = 0" "out w' = shown @ ''\<newline>Goodbye!\<newline>''" "evs = before @ Interrupt # inp w'"
    by (auto simp: ending_def)
  then have "c = 0 \<and> (\<exists>p. out w' = p @ ''\<newline>Goodbye!\<newline>'') \<and>
      (\<exists>b. pre @ evs = b @ Interrupt # inp w')"
    by (metis append_assoc)
  with SystemExit show ?thesis by (simp add: ending_def)
qed (simp_all add: ending_def)

lemma get_int_input_result:
  "get_int_input prompt w = (r, w') \<Longrightarrow>
   (case r of
      Inr n \<Rightarrow> (\<exists>before s. inp w = before @ Line s # inp w' \<and> py_int s = Some n)
    | Inl e \<Rightarrow> ending (inp w) e w')"
proof (induction "length (inp w)" arbitrary: w rule: less_induct)
  case less
  show ?case
  proof (cases "inp w")
    case Nil
    with less.prems have "r = Inl EOFError" "inp w' = []"
      by (auto simp: get_int_input.simps [of prompt w] py_input_def)
    then show ?thesis by (simp add: ending_def)
  next
    case (Cons ev rest)
    show ?thesis
    proof (cases ev)
      case Interrupt
      with Cons less.prems have "r = Inl (SystemExit 0)" "inp w' = rest"
        "out w' = (out w @ prompt) @ ''\<newline>Goodbye!\<newline>''"
        by (auto simp: get_int_input.simps [of prompt w] py_input_def py_print_def)
      moreover from Cons Interrupt have "inp w = [] @ Interrupt # rest" by simp
      ultimately show ?thesis
        unfolding ending_def by (simp del: append_assoc)
    next
      case (Line s)
      show ?thesis
      proof (cases "py_int s")
        case (Some n)
        with Cons Line less.prems have "r = Inr n" "inp w' = rest"
          by (auto simp: get_int_input.simps [of prompt w] py_input_def)
        moreover from Cons Line have "inp w = [] @ Line s # rest" by simp
        ultimately show ?thesis using Some by (simp del: append.simps; blast?)
      next
        case None
        let ?w2 = "py_print ''Invalid input. Please enter a valid integer.''
                     (w\<lparr>inp := rest, out := out w @ prompt\<rparr>)"
        from Cons Line None less.prems have again: "get_int_input prompt ?w2 = (r, w')"
          by (simp add: get_int_input.simps [of prompt w] py_input_def)
        have rest: "inp ?w2 = rest" by (simp add: py_print_def)
        with Cons have "length (inp ?w2) < length (inp w)" by simp
        from less.hyps [OF this again, unfolded rest]
        have ih: "case r of
            Inr n \<Rightarrow> (\<exists>before s. rest = before @ Line s # inp w' \<and> py_int s = Some n)
          | Inl e \<Rightarrow> ending rest e w'"
          by simp
        show ?thesis
        proof (cases r)
          case (Inl e)
          with ih have "ending ([ev] @ rest) e w'"
            by (simp add: ending_prefix del: append.simps)
          with Inl Cons show ?thesis by simp
        next
          case (Inr n)
          with ih obtain before s' where "rest = before @ Line s' # inp w'" "py_int s' = Some n"
            by auto
          with Cons have "inp w = (ev # before) @ Line s' # inp w' \<and> py_int s' = Some n"
            by simp
          with Inr show ?thesis by (simp del: append.simps; blast?)
        qed
      qed
    qed
  qed
qed

lemma get_menu_choice_result:
  "get_menu_choice w = (r, w') \<Longrightarrow>
   (case r of
      Inr n \<Rightarrow> 0 \<le> n \<and> n \<le> 5 \<and> (\<exists>before s. inp w = before @ Line s # inp w' \<and> py_int s = Some n)
    | Inl e \<Rightarrow> ending (inp w) e w')"
proof (induction "length (inp w)" arbitrary: w rule: less_induct)
  case less
  obtain r1 w1 where ask: "get_int_input ''Choose an option: '' (display_menu w) = (r1, w1)"
    by (cases "get_int_input ''Choose an option: '' (display_menu w)")
  have same: "inp (display_menu w) = inp w"
    by (simp add: display_menu_out)
  note asked = get_int_input_result [OF ask, unfolded same]
  show ?case
  proof (cases r1)
    case (Inl e)
    with ask less.prems have "r = Inl e" "w' = w1"
      by (simp_all add: get_menu_choice.simps [of w])
    with asked Inl show ?thesis by simp
  next
    case (Inr c)
    with asked obtain before s where
      read: "inp w = before @ Line s # inp w1" "py_int s = Some c"
      by auto
    show ?thesis
    proof (cases "0 \<le> c \<and> c \<le> 5")
      case True
      with ask Inr less.prems have "r = Inr c" "w' = w1"
        by (simp_all add: get_menu_choice.simps [of w])
      with True read show ?thesis by auto
    next
      case False
      let ?w2 = "py_print (''Option '' @ py_str c @ '' not valid. Please choose 0-5.'') w1"
      from ask Inr False less.prems have again: "get_menu_choice ?w2 = (r, w')"
        by (auto simp: get_menu_choice.simps [of w] split: if_splits)
      have rest: "inp ?w2 = inp w1" by (simp add: py_print_def)
      with read have "length (inp ?w2) < length (inp w)" by simp
      from less.hyps [OF this again, unfolded rest]
      have ih: "case r of
          Inr n \<Rightarrow> 0 \<le> n \<and> n \<le> 5 \<and>
            (\<exists>before s. inp w1 = before @ Line s # inp w' \<and> py_int s = Some n)
        | Inl e \<Rightarrow> ending (inp w1) e w'"
        by simp
      show ?thesis
      proof (cases r)
        case (Inl e)
        with ih have "ending ((before @ [Line s]) @ inp w1) e w'"
          by (simp add: ending_prefix del: append_assoc append.simps)
        with Inl read show ?thesis by simp
      next
        case (Inr n)
        with ih obtain b2 s2 where "0 \<le> n" "n \<le> 5"
          "inp w1 = b2 @ Line s2 # inp w'" "py_int s2 = Some n"
          by auto
        with read have "0 \<le> n \<and> n \<le> 5 \<and>
            inp w = (before @ Line s # b2) @ Line s2 # inp w' \<and> py_int s2 = Some n"
          by simp
        with Inr show ?thesis by (simp del: append_assoc append.simps; blast?)
      qed
    qed
  qed
qed

lemma add_task_result:
  "add_task tasks w = (r, w') \<Longrightarrow>
   (case r of Inr x \<Rightarrow> (\<exists>before. inp w = before @ inp w') | Inl e \<Rightarrow> ending (inp w) e w')"
  by (auto simp: add_task_def py_input_def py_print_def ending_def Let_def
        split: list.splits event.splits)

lemma update_task_result:
  "update_task tasks task_id w = (r, w') \<Longrightarrow>
   (case r of Inr x \<Rightarrow> (\<exists>before. inp w = before @ inp w') | Inl e \<Rightarrow> ending (inp w) e w')"
  by (auto simp: update_task_def py_input_def py_print_def ending_def Let_def
        split: list.splits event.splits option.splits if_splits)

lemma delete_task_inp: "delete_task tasks task_id w = (x, w') \<Longrightarrow> inp w' = inp w"
  by (auto simp: delete_task_def py_print_def split: option.splits)

lemma toggle_complete_inp: "toggle_complete tasks task_id w = (x, w') \<Longrightarrow> inp w' = inp w"
  by (auto simp: toggle_complete_def py_print_def Let_def split: option.splits)

lemma print_tasks_inp: "inp (print_tasks tasks w) = inp w"
  by (simp add: print_tasks_def print_task_lines_out py_print_def)

lemma main_loop_result:
  "main_loop tasks w = (r, w') \<Longrightarrow>
   (case r of
      Inr ts \<Rightarrow> (\<exists>before s. inp w = before @ Line s # inp w' \<and> py_int s = Some 0)
    | Inl e \<Rightarrow> ending (inp w) e w')"
proof (induction "length (inp w)" arbitrary: tasks w rule: less_induct)
  case less
  let ?goal = "case r of
      Inr ts \<Rightarrow> (\<exists>before s. inp w = before @ Line s # inp w' \<and> py_int s = Some 0)
    | Inl e \<Rightarrow> ending (inp w) e w'"
  obtain r1 w1 where menu: "get_menu_choice w = (r1, w1)"
    by (cases "get_menu_choice w")
  note chosen = get_menu_choice_result [OF menu]
  show ?case
  proof (cases r1)
    case (Inl e)
    with menu less.prems have "r = Inl e" "w' = w1"
      by (simp_all add: main_loop.simps [of tasks w])
    with chosen Inl show ?thesis by simp
  next
    case (Inr c)
    with chosen obtain before s where
      range: "0 \<le> c" "c \<le> 5" and read: "inp w = before @ Line s # inp w1" "py_int s = Some c"
      by auto
    txt \<open>An exception raised later in this round, after \<open>more\<close> further events.\<close>
    have raised: ?goal
      if "r = Inl e" "ending (inp w2) e w'" "inp w1 = more @ inp w2"
      for e and w2 :: world and more
    proof -
      from that(2) have "ending ((before @ Line s # more) @ inp w2) e w'"
        by (rule ending_prefix)
      with that(1,3) read(1) show ?thesis by simp
    qed
    txt \<open>The next round, entered after \<open>more\<close> further events.\<close>
    have again: ?goal
      if "main_loop ts w2 = (r, w')" "inp w1 = more @ inp w2"
      for ts and w2 :: world and more
    proof -
      from that(2) read(1) have "length (inp w2) < length (inp w)" by simp
      note ih = less.hyps [OF this that(1)]
      show ?thesis
      proof (cases r)
        case (Inl e)
        with ih have "ending (inp w2) e w'" by simp
        from raised [OF Inl this that(2)] show ?thesis .
      next
        case (Inr ts')
        with ih obtain b2 s2 where "inp w2 = b2 @ Line s2 # inp w'" "py_int s2 = Some 0"
          by auto
        with that(2) read(1) have
          "inp w = (before @ Line s # more @ b2) @ Line s2 # inp w' \<and> py_int s2 = Some 0"
          by simp
        with Inr show ?thesis by (simp del: append_assoc append.simps; blast?)
      qed
    qed
    from range consider "c = 0" | "c = 1" | "c = 2" | "c = 3" | "c = 4" | "c = 5"
      by linarith
    then show ?thesis
    proof cases
      case 1
      with menu Inr less.prems have "r = Inr tasks" "w' = w1"
        by (simp_all add: main_loop.simps [of tasks w])
      with read 1 show ?thesis by auto
    next
      case 2
      obtain r2 w2 where add: "add_task tasks w1 = (r2, w2)"
        by (cases "add_task tasks w1")
      note added = add_task_result [OF add]
      show ?thesis
      proof (cases r2)
        case (Inl e)
        with menu Inr 2 add less.prems have "r = Inl e" "w' = w2"
          by (simp_all add: main_loop.simps [of tasks w])
        moreover from added Inl have "ending (inp w1) e w2" by simp
        ultimately show ?thesis using raised [of e w1 "[]"] by simp
      next
        case (Inr x)
        obtain u ts where x: "x = (u, ts)" by (cases x)
        with menu \<open>r1 = Inr c\<close> 2 add Inr less.prems have "main_loop ts w2 = (r, w')"
          by (simp add: main_loop.simps [of tasks w])
        moreover from added Inr obtain more where "inp w1 = more @ inp w2" by auto
        ultimately show ?thesis by (rule again)
      qed
    next
      case 3
      with menu Inr less.prems have "main_loop tasks (print_tasks tasks w1) = (r, w')"
        by (simp add: main_loop.simps [of tasks w])
      moreover have "inp w1 = [] @ inp (print_tasks tasks w1)"
        by (simp add: print_tasks_inp)
      ultimately show ?thesis by (rule again)
    next
      case 4
      obtain r2 w2 where ask: "get_int_input ''Enter task ID to update: '' w1 = (r2, w2)"
        by (cases "get_int_input ''Enter task ID to update: '' w1")
      note asked = get_int_input_result [OF ask]
      show ?thesis
      proof (cases r2)
        case (Inl e)
        with menu Inr 4 ask less.prems have "r = Inl e" "w' = w2"
          by (simp_all add: main_loop.simps [of tasks w])
        moreover from asked Inl have "ending (inp w1) e w2" by simp
        ultimately show ?thesis using raised [of e w1 "[]"] by simp
      next
        case (Inr task_id)
        with asked obtain b2 s2 where read2: "inp w1 = (b2 @ [Line s2]) @ inp w2"
          by auto
        obtain r3 w3 where upd: "update_task tasks task_id w2 = (r3, w3)"
          by (cases "update_task tasks task_id w2")
        note updated = update_task_result [OF upd]
        show ?thesis
        proof (cases r3)
          case (Inl e)
          with menu \<open>r1 = Inr c\<close> 4 ask \<open>r2 = Inr task_id\<close> upd less.prems
          have "r = Inl e" "w' = w3"
            by (simp_all add: main_loop.simps [of tasks w])
          moreover from updated Inl have "ending (inp w2) e w3" by simp
          ultimately show ?thesis using raised [OF _ _ read2] by simp
        next
          case (Inr x)
          obtain found ts where x: "x = (found, ts)" by (cases x)
          with menu \<open>r1 = Inr c\<close> 4 ask \<open>r2 = Inr task_id\<close> upd Inr less.prems
          have "main_loop ts w3 = (r, w')"
            by (simp add: main_loop.simps [of tasks w])
          moreover from updated Inr obtain b3 where "inp w2 = b3 @ inp w3"
            by auto
          with read2 have "inp w1 = (b2 @ Line s2 # b3) @ inp w3"
            by simp
          ultimately show ?thesis by (rule again)
        qed
      qed
    next
      case 5
      obtain r2 w2 where ask: "get_int_input ''Enter task ID to delete: '' w1 = (r2, w2)"
        by (cases "get_int_input ''Enter task ID to delete: '' w1")
      note asked = get_int_input_result [OF ask]
      show ?thesis
      proof (cases r2)
        case (Inl e)
        with menu Inr 5 ask less.prems have "r = Inl e" "w' = w2"
          by (simp_all add: main_loop.simps [of tasks w])
        moreover from asked Inl have "ending (inp w1) e w2" by simp
        ultimately show ?thesis using raised [of e w1 "[]"] by simp
      next
        case (Inr task_id)
        with asked obtain b2 s2 where read2: "inp w1 = (b2 @ [Line s2]) @ inp w2"
          by auto
        obtain found ts w3 where del: "delete_task tasks task_id w2 = ((found, ts), w3)"
          by (cases "delete_task tasks task_id w2") auto
        with menu \<open>r1 = Inr c\<close> 5 ask Inr less.prems have "main_loop ts w3 = (r, w')"
          by (simp add: main_loop.simps [of tasks w])
        moreover from read2 delete_task_inp [OF del] have "inp w1 = (b2 @ [Line s2]) @ inp w3"
          by simp
        ultimately show ?thesis by (rule again)
      qed
    next
      case 6
      obtain r2 w2 where ask: "get_int_input ''Enter task ID to toggle: '' w1 = (r2, w2)"
        by (cases "get_int_input ''Enter task ID to toggle: '' w1")
      note asked = get_int_input_result [OF ask]
      show ?thesis
      proof (cases r2)
        case (Inl e)
        with menu Inr 6 ask less.prems have "r = Inl e" "w' = w2"
          by (simp_all add: main_loop.simps [of tasks w])
        moreover from asked Inl have "ending (inp w1) e w2" by simp
        ultimately show ?thesis using raised [of e w1 "[]"] by simp
      next
        case (Inr task_id)
        with asked obtain b2 s2 where read2: "inp w1 = (b2 @ [Line s2]) @ inp w2"
          by auto
        obtain found ts w3 where tog: "toggle_complete tasks task_id w2 = ((found, ts), w3)"
          by (cases "toggle_complete tasks task_id w2") auto
        with menu \<open>r1 = Inr c\<close> 6 ask Inr less.prems have "main_loop ts w3 = (r, w')"
          by (simp add: main_loop.simps [of tasks w])
        moreover from read2 toggle_complete_inp [OF tog] have "inp w1 = (b2 @ [Line s2]) @ inp w3"
          by simp
        ultimately show ?thesis by (rule again)
      qed
    qed
  qed
qed

subsection \<open>Interrupts and the ways a run ends\<close>

lemma get_int_input_retry_interrupt:
  "list_all (\<lambda>s. py_int s = None) bad \<Longrightarrow>
   \<exists>shown'. get_int_input prompt \<lparr>inp = map Line bad @ Interrupt # rest, out = shown\<rparr> =
     (Inl (SystemExit 0), \<lparr>inp = rest, out = shown' @ prompt @ ''\<newline>Goodbye!\<newline>''\<rparr>)"
proof (induction bad arbitrary: shown)
  case Nil
  show ?case by (simp add: get_int_input_interrupt)
next
  case (Cons s bad)
  then have "py_int s = None" "list_all (\<lambda>s. py_int s = None) bad"
    by simp_all
  with Cons.IH [of "shown @ prompt @ ''Invalid input. Please enter a valid integer.\<newline>''"]
  show ?case
    by (simp add: get_int_input_invalid)
qed

lemma main_loop_id_prompt_interrupt:
  assumes "py_int s = Some c" "c = 3 \<or> c = 4 \<or> c = 5"
  shows "\<exists>shown'. main_loop tasks \<lparr>inp = Line s # Interrupt # rest, out = shown\<rparr> =
     (Inl (SystemExit 0), \<lparr>inp = rest, out = shown' @ ''\<newline>Goodbye!\<newline>''\<rparr>)"
proof -
  from assms have menu: "get_menu_choice \<lparr>inp = Line s # Interrupt # rest, out = shown\<rparr> =
      (Inr c, \<lparr>inp = Interrupt # rest, out = shown @ menu_text @ ''Choose an option: ''\<rparr>)"
    by (intro get_menu_choice_line) auto
  from assms(2) consider "c = 3" | "c = 4" | "c = 5" by blast
  then show ?thesis
  proof cases
    case 1
    have "main_loop tasks \<lparr>inp = Line s # Interrupt # rest, out = shown\<rparr> =
        (Inl (SystemExit 0),
         \<lparr>inp = rest,
            out = (shown @ menu_text @ ''Choose an option: Enter task ID to update: '')
                    @ ''\<newline>Goodbye!\<newline>''\<rparr>)"
      by (subst main_loop.simps) (simp add: menu 1 get_int_input_interrupt)
    then show ?thesis by blast
  next
    case 2
    have "main_loop tasks \<lparr>inp = Line s # Interrupt # rest, out = shown\<rparr> =
        (Inl (SystemExit 0),
         \<lparr>inp = rest,
            out = (shown @ menu_text @ ''Choose an option: Enter task ID to delete: '')
                    @ ''\<newline>Goodbye!\<newline>''\<rparr>)"
      by (subst main_loop.simps) (simp add: menu 2 get_int_input_interrupt)
    then show ?thesis by blast
  next
    case 3
    have "main_loop tasks \<lparr>inp = Line s # Interrupt # rest, out = shown\<rparr> =
        (Inl (SystemExit 0),
         \<lparr>inp = rest,
            out = (shown @ menu_text @ ''Choose an option: Enter task ID to toggle: '')
                    @ ''\<newline>Goodbye!\<newline>''\<rparr>)"
      by (subst main_loop.simps) (simp add: menu 3 get_int_input_interrupt)
    then show ?thesis by blast
  qed
qed

text \<open>
  A line that \<^verbatim>\<open>strip\<close> would clean but \<^verbatim>\<open>int\<close> refuses: the separator (code 28)
  before \<^verbatim>\<open>0\<close> is no exit choice. The prompt is repeated, and the run ends when the
  input does.
\<close>

lemma separator_line_is_no_choice:
  "main \<lparr>inp = [Line [CHR 0x1C, CHR ''0'']], out = ''''\<rparr> =
     (Inl EOFError,
      \<lparr>inp = [],
         out = menu_text @ ''Choose an option: Invalid input. Please enter a valid integer.\<newline>''
                 @ ''Choose an option: ''\<rparr>)"
proof -
  have no_int: "py_int [CHR 0x1C, CHR ''0''] = None"
    by (simp add: py_int_def int_strip_def int_isspace_def unsigned_int_def is_digit_def)
  have ask: "get_int_input ''Choose an option: ''
        \<lparr>inp = [Line [CHR 0x1C, CHR ''0'']], out = menu_text\<rparr> =
      (Inl EOFError,
       \<lparr>inp = [],
          out = menu_text @ ''Choose an option: Invalid input. Please enter a valid integer.\<newline>''
                  @ ''Choose an option: ''\<rparr>)"
    by (simp add: get_int_input_invalid [OF no_int] get_int_input_eof)
  have menu: "get_menu_choice \<lparr>inp = [Line [CHR 0x1C, CHR ''0'']], out = ''''\<rparr> =
      (Inl EOFError,
       \<lparr>inp = [],
          out = menu_text @ ''Choose an option: Invalid input. Please enter a valid integer.\<newline>''
                  @ ''Choose an option: ''\<rparr>)"
    by (subst get_menu_choice.simps) (simp add: display_menu_out ask)
  have "main_loop [] \<lparr>inp = [Line [CHR 0x1C, CHR ''0'']], out = ''''\<rparr> =
      (Inl EOFError,
       \<lparr>inp = [],
          out = menu_text @ ''Choose an option: Invalid input. Please enter a valid integer.\<newline>''
                  @ ''Choose an option: ''\<rparr>)"
    by (subst main_loop.simps) (simp add: menu)
  then show ?thesis by (simp add: main_def)
qed

lemma main_result:
  "case main w of
     (Inr u, w') \<Rightarrow>
       (\<exists>shown'. out w' = shown' @ ''Goodbye! Have a nice day.\<newline>'') \<and>
       (\<exists>before s. inp w = before @ Line s # inp w' \<and> py_int s = Some 0)
   | (Inl (SystemExit c), w') \<Rightarrow>
       c = 0 \<and> (\<exists>shown'. out w' = shown' @ ''\<newline>Goodbye!\<newline>'') \<and>
       (\<exists>before. inp w = before @ Interrupt # inp w')
   | (Inl EOFError, w') \<Rightarrow> inp w' = []
   | (Inl KeyboardInterrupt, w') \<Rightarrow> True"
proof -
  obtain r w1 where loop: "main_loop [] w = (r, w1)"
    by (cases "main_loop [] w")
  note ended = main_loop_result [OF loop]
  show ?thesis
  proof (cases r)
    case (Inr ts)
    with loop have "main w = (Inr (), py_print ''Goodbye! Have a nice day.'' w1)"
      by (simp add: main_def)
    moreover have "out (py_print ''Goodbye! Have a nice day.'' w1) =
        out w1 @ ''Goodbye! Have a nice day.\<newline>''"
      "inp (py_print ''Goodbye! Have a nice day.'' w1) = inp w1"
      by (simp_all add: py_print_def)
    moreover from ended Inr have "\<exists>before s. inp w = before @ Line s # inp w1 \<and> py_int s = Some 0"
      by simp
    ultimately show ?thesis by (simp del: append.simps; blast?)
  next
    case (Inl e)
    with loop have m: "main w = (Inl e, w1)"
      by (simp add: main_def)
    from ended Inl have "ending (inp w) e w1" by simp
    with m show ?thesis
      by (cases e) (simp_all add: ending_def)
  qed
qed

text \<open>
  C3, as the code has it. An interrupt that arrives while \<open>get_int_input\<close> waits for a
  line, be it at once or after lines that are no integers, makes it print \<^verbatim>\<open>Goodbye!\<close>
  on a fresh line and raise \<^verbatim>\<open>SystemExit(0)\<close>. So does, in any round of the main
  loop, an interrupt at the menu prompt and an interrupt at the prompt for the id of the
  task to update, to delete or to toggle. A run of \<open>main\<close> ends in one of these
  ways: by returning, in which case the last line read was the choice 0 and the last
  line printed is \<^verbatim>\<open>Goodbye! Have a nice day.\<close>; by \<^verbatim>\<open>SystemExit\<close>, in which case the
  status is 0, the last event read was an interrupt and the last line printed is
  \<^verbatim>\<open>Goodbye!\<close>; by an \<^verbatim>\<open>EOFError\<close> that nothing catches, in which case the input
  is used up; or by a \<^verbatim>\<open>KeyboardInterrupt\<close> that nothing catches, of which nothing is
  stated here.
\<close>

theorem interrupt_at_integer_prompt:
  "(list_all (\<lambda>s. py_int s = None) bad \<longrightarrow>
      (\<exists>shown'. get_int_input prompt \<lparr>inp = map Line bad @ Interrupt # rest, out = shown\<rparr> =
         (Inl (SystemExit 0), \<lparr>inp = rest, out = shown' @ prompt @ ''\<newline>Goodbye!\<newline>''\<rparr>))) \<and>
   main_loop tasks \<lparr>inp = Interrupt # rest, out = shown\<rparr> =
     (Inl (SystemExit 0),
      \<lparr>inp = rest, out = shown @ menu_text @ ''Choose an option: \<newline>Goodbye!\<newline>''\<rparr>) \<and>
   (py_int s = Some 3 \<or> py_int s = Some 4 \<or> py_int s = Some 5 \<longrightarrow>
      (\<exists>shown'. main_loop tasks \<lparr>inp = Line s # Interrupt # rest, out = shown\<rparr> =
         (Inl (SystemExit 0), \<lparr>inp = rest, out = shown' @ ''\<newline>Goodbye!\<newline>''\<rparr>))) \<and>
   (case main w of
      (Inr u, w') \<Rightarrow>
        (\<exists>shown'. out w' = shown' @ ''Goodbye! Have a nice day.\<newline>'') \<and>
        (\<exists>before s. inp w = before @ Line s # inp w' \<and> py_int s = Some 0)
    | (Inl (SystemExit c), w') \<Rightarrow>
        c = 0 \<and> (\<exists>shown'. out w' = shown' @ ''\<newline>Goodbye!\<newline>'') \<and>
        (\<exists>before. inp w = before @ Interrupt # inp w')
    | (Inl EOFError, w') \<Rightarrow> inp w' = []
    | (Inl KeyboardInterrupt, w') \<Rightarrow> True)"
proof (intro conjI impI)
  assume "list_all (\<lambda>s. py_int s = None) bad"
  then show "\<exists>shown'. get_int_input prompt \<lparr>inp = map Line bad @ Interrupt # rest, out = shown\<rparr> =
      (Inl (SystemExit 0), \<lparr>inp = rest, out = shown' @ prompt @ ''\<newline>Goodbye!\<newline>''\<rparr>)"
    by (rule get_int_input_retry_interrupt)
next
  show "main_loop tasks \<lparr>inp = Interrupt # rest, out = shown\<rparr> =
      (Inl (SystemExit 0),
       \<lparr>inp = rest, out = shown @ menu_text @ ''Choose an option: \<newline>Goodbye!\<newline>''\<rparr>)"
    by (rule main_loop_interrupt)
next
  assume "py_int s = Some 3 \<or> py_int s = Some 4 \<or> py_int s = Some 5"
  then obtain c where "py_int s = Some c" "c = 3 \<or> c = 4 \<or> c = 5"
    by blast
  then show "\<exists>shown'. main_loop tasks \<lparr>inp = Line s # Interrupt # rest, out = shown\<rparr> =
      (Inl (SystemExit 0), \<lparr>inp = rest, out = shown' @ ''\<newline>Goodbye!\<newline>''\<rparr>)"
    by (rule main_loop_id_prompt_interrupt)
next
  show "case main w of
      (Inr u, w') \<Rightarrow>
        (\<exists>shown'. out w' = shown' @ ''Goodbye! Have a nice day.\<newline>'') \<and>
        (\<exists>before s. inp w = before @ Line s # inp w' \<and> py_int s = Some 0)
    | (Inl (SystemExit c), w') \<Rightarrow>
        c = 0 \<and> (\<exists>shown'. out w' = shown' @ ''\<newline>Goodbye!\<newline>'') \<and>
        (\<exists>before. inp w = before @ Interrupt # inp w')
    | (Inl EOFError, w') \<Rightarrow> inp w' = []
    | (Inl KeyboardInterrupt, w') \<Rightarrow> True"
    by (rule main_result)
qed

text \<open>
  An interrupt at the prompt for the id to delete, after two lines that are no integers
  (letters; a separator, code 28, before a digit); and an interrupt at the prompt for
  the id to update, in the first round of the loop.
\<close>

theorem interrupt_at_integer_prompt_witness:
  "(\<exists>shown'. get_int_input ''Enter task ID to delete: ''
        \<lparr>inp = [Line ''abc'', Line [CHR 0x1C, CHR ''5''], Interrupt, Line ''0''], out = ''''\<rparr> =
      (Inl (SystemExit 0),
       \<lparr>inp = [Line ''0''], out = shown' @ ''Enter task ID to delete: \<newline>Goodbye!\<newline>''\<rparr>)) \<and>
   (\<exists>shown'. main_loop [] \<lparr>inp = [Line ''3'', Interrupt], out = ''''\<rparr> =
      (Inl (SystemExit 0), \<lparr>inp = [], out = shown' @ ''\<newline>Goodbye!\<newline>''\<rparr>))"
proof -
  have bad: "list_all (\<lambda>s. py_int s = None) [''abc'', [CHR 0x1C, CHR ''5'']]"
    by (simp add: py_int_examples)
  have three: "py_int ''3'' = Some 3 \<or> py_int ''3'' = Some 4 \<or> py_int ''3'' = Some 5"
    by (simp add: py_int_digit)
  note at_prompt = interrupt_at_integer_prompt
    [where bad = "[''abc'', [CHR 0x1C, CHR ''5'']]" and prompt = "''Enter task ID to delete: ''"
       and rest = "[Line ''0'']" and shown = "''''" and tasks = "[]" and s = "''3''"
       and w = "\<lparr>inp = [], out = ''''\<rparr>"]
  from at_prompt bad
  have first: "\<exists>shown'. get_int_input ''Enter task ID to delete: ''
        \<lparr>inp = [Line ''abc'', Line [CHR 0x1C, CHR ''5''], Interrupt, Line ''0''], out = ''''\<rparr> =
      (Inl (SystemExit 0),
       \<lparr>inp = [Line ''0''], out = shown' @ ''Enter task ID to delete: \<newline>Goodbye!\<newline>''\<rparr>)"
    by simp
  note at_id_prompt = interrupt_at_integer_prompt
    [where bad = "[]" and prompt = "''''" and rest = "[]" and shown = "''''" and tasks = "[]"
       and s = "''3''" and w = "\<lparr>inp = [], out = ''''\<rparr>"]
  from at_id_prompt three
  have second: "\<exists>shown'. main_loop [] \<lparr>inp = [Line ''3'', Interrupt], out = ''''\<rparr> =
      (Inl (SystemExit 0), \<lparr>inp = [], out = shown' @ ''\<newline>Goodbye!\<newline>''\<rparr>)"
    by simp
  from first second show ?thesis by simp
qed

text \<open>
  Two runs that end in neither of the two ways of the claim. On an input that is at its
  end, the first \<^verbatim>\<open>input\<close> raises \<^verbatim>\<open>EOFError\<close>, which no function catches. With the
  choice 1 and then an interrupt, the interrupt arrives at the prompt \<^verbatim>\<open>Title: \<close> of
  \<open>add_task\<close>, whose \<^verbatim>\<open>input\<close> is not guarded as the one of \<open>get_int_input\<close> is: the
  \<^verbatim>\<open>KeyboardInterrupt\<close> reaches the top, and no farewell is printed.
\<close>

theorem run_ends_without_farewell:
  "main \<lparr>inp = [], out = ''''\<rparr> =
     (Inl EOFError, \<lparr>inp = [], out = menu_text @ ''Choose an option: ''\<rparr>) \<and>
   main \<lparr>inp = [Line ''1'', Interrupt], out = ''''\<rparr> =
     (Inl KeyboardInterrupt, \<lparr>inp = [], out = menu_text @ ''Choose an option: Title: ''\<rparr>)"
proof -
  have eof: "main_loop [] \<lparr>inp = [], out = ''''\<rparr> =
      (Inl EOFError, \<lparr>inp = [], out = menu_text @ ''Choose an option: ''\<rparr>)"
    using main_loop_eof [of "[]" "''''"] by simp
  have menu: "get_menu_choice \<lparr>inp = [Line ''1'', Interrupt], out = ''''\<rparr> =
      (Inr 1, \<lparr>inp = [Interrupt], out = menu_text @ ''Choose an option: ''\<rparr>)"
    using get_menu_choice_line [of "''1''" 1 "[Interrupt]" "''''"] by (simp add: py_int_digit)
  have title: "main_loop [] \<lparr>inp = [Line ''1'', Interrupt], out = ''''\<rparr> =
      (Inl KeyboardInterrupt, \<lparr>inp = [], out = menu_text @ ''Choose an option: Title: ''\<rparr>)"
    by (subst main_loop.simps) (simp add: menu add_task_def py_input_def)
  from eof title show ?thesis
    by (simp add: main_def)
qed

end
